theory Spec2Isabelle
  imports Complex_Main
begin

section \<open>Python built-ins used by the toolkit\<close>

text \<open>
  The toolkit is one Python module, \<^verbatim>\<open>pdf_toolkit.py\<close>. Exceptions that the module's own
  control flow can raise are values of \<open>py_error\<close>; a fallible computation returns
  \<open>py_error + 'a\<close> with \<open>Inl\<close> for the exception.
\<close>

datatype py_error = IndexError | ValueError | ZeroDivisionError | OpenError

text \<open>\<^verbatim>\<open>xs[0]\<close>: the first element, or \<^verbatim>\<open>IndexError\<close> on the empty list.\<close>

definition index0 :: "'a list \<Rightarrow> py_error + 'a" where
  "index0 xs = (case xs of [] \<Rightarrow> Inl IndexError | x # _ \<Rightarrow> Inr x)"

text \<open>
  \<^verbatim>\<open>str.isspace\<close> on one character. Characters are the code points below 256; there the
  whitespace characters are 9 to 13, 28 to 32, 133 and 160.
\<close>

definition is_space :: "char \<Rightarrow> bool" where
  "is_space c = (let n = (of_char c :: nat) in
     (9 \<le> n \<and> n \<le> 13) \<or> (28 \<le> n \<and> n \<le> 32) \<or> n = 133 \<or> n = 160)"

text \<open>
  \<^verbatim>\<open>text.split(sep)\<close> for a one-character separator: a left-to-right scan that closes the
  current segment at every occurrence of the separator. \<open>cur\<close> is the current segment,
  reversed. The result is never empty.
\<close>

fun split_sep_from :: "char \<Rightarrow> string \<Rightarrow> string \<Rightarrow> string list" where
  "split_sep_from sep cur [] = [rev cur]"
| "split_sep_from sep cur (x # xs) =
     (if x = sep then rev cur # split_sep_from sep [] xs
      else split_sep_from sep (x # cur) xs)"

definition split_sep :: "char \<Rightarrow> string \<Rightarrow> string list" where
  "split_sep sep text = split_sep_from sep [] text"

text \<open>
  \<^verbatim>\<open>text.split()\<close> without a separator: runs of whitespace separate the words, and
  leading and trailing whitespace produce no empty word. The result is empty when the
  text has no word.
\<close>

fun split_ws_from :: "string \<Rightarrow> string \<Rightarrow> string list" where
  "split_ws_from cur [] = (if cur = [] then [] else [rev cur])"
| "split_ws_from cur (x # xs) =
     (if is_space x
      then (if cur = [] then split_ws_from [] xs else rev cur # split_ws_from [] xs)
      else split_ws_from (x # cur) xs)"

definition split_ws :: "string \<Rightarrow> string list" where
  "split_ws text = split_ws_from [] text"

section \<open>Header label: \<^verbatim>\<open>split_by_delimiter\<close>\<close>

datatype Delimiters =
  No | Space | Colon | Semicolon | Comma | Hyphen | Underscore | Slash | Backslash | At | Pipe

fun split_by_delimiter :: "string \<Rightarrow> Delimiters \<Rightarrow> py_error + string" where
  "split_by_delimiter text No = Inr text"
| "split_by_delimiter text Space = index0 (split_ws text)"
| "split_by_delimiter text Colon = index0 (split_sep (CHR '':'') text)"
| "split_by_delimiter text Semicolon = index0 (split_sep (CHR '';'') text)"
| "split_by_delimiter text Comma = index0 (split_sep (CHR '','') text)"
| "split_by_delimiter text Hyphen = index0 (split_sep (CHR ''-'') text)"
| "split_by_delimiter text Underscore = index0 (split_sep (CHR ''_'') text)"
| "split_by_delimiter text Slash = index0 (split_sep (CHR ''/'') text)"
| "split_by_delimiter text Backslash = index0 (split_sep (CHR 0x5C) text)"
| "split_by_delimiter text At = index0 (split_sep (CHR ''@'') text)"
| "split_by_delimiter text Pipe = index0 (split_sep (CHR ''|'') text)"

text \<open>
  The character each variant stands for, as the specification names the variants
  (\<open>No\<close> stands for no character).
\<close>

fun delimiter_char :: "Delimiters \<Rightarrow> char option" where
  "delimiter_char No = None"
| "delimiter_char Space = Some (CHR '' '')"
| "delimiter_char Colon = Some (CHR '':'')"
| "delimiter_char Semicolon = Some (CHR '';'')"
| "delimiter_char Comma = Some (CHR '','')"
| "delimiter_char Hyphen = Some (CHR ''-'')"
| "delimiter_char Underscore = Some (CHR ''_'')"
| "delimiter_char Slash = Some (CHR ''/'')"
| "delimiter_char Backslash = Some (CHR 0x5C)"
| "delimiter_char At = Some (CHR ''@'')"
| "delimiter_char Pipe = Some (CHR ''|'')"

text \<open>
  The delimiter rule in the specification's words: the segment of the text before the
  first occurrence of the chosen delimiter, the whole text when the variant is \<open>No\<close> or
  the delimiter does not occur.
\<close>

definition spec_first_segment :: "string \<Rightarrow> Delimiters \<Rightarrow> string" where
  "spec_first_segment text d =
     (case delimiter_char d of None \<Rightarrow> text | Some c \<Rightarrow> takeWhile (\<lambda>x. x \<noteq> c) text)"

section \<open>Rectangles, pages and drawing operations\<close>

text \<open>
  Coordinates, lengths and stroke widths are Python floats; they are modelled as real
  numbers. A rectangle is the document library's \<^verbatim>\<open>Rect(x0, y0, x1, y1)\<close>.
\<close>

datatype rect = Rect (x0: real) (y0: real) (x1: real) (y1: real)

text \<open>
  Modelled from the spec: the library's \<^verbatim>\<open>Rect.width\<close> and \<^verbatim>\<open>Rect.height\<close> are not part of
  the repository's source; section 8 of the specification computes the height of a
  content region as \<open>y1 - y0\<close> (300 - 150 - 160 = -10).
\<close>

definition rect_width :: "rect \<Rightarrow> real" where
  "rect_width r = x1 r - x0 r"

definition rect_height :: "rect \<Rightarrow> real" where
  "rect_height r = y1 r - y0 r"

definition create_rect :: "real \<Rightarrow> real \<Rightarrow> real \<Rightarrow> real \<Rightarrow> rect" where
  "create_rect x y w h = Rect x y (x + w) (y + h)"

datatype align = AlignLeft | AlignCenter | AlignRight

text \<open>
  What a page holds. \<open>Content n\<close> is content the page had before the toolkit touched it
  (\<open>n\<close> identifies it); the other constructors are what the toolkit adds:
  \<^item> \<open>ShowPdfPage r i\<close>: \<^verbatim>\<open>show_pdf_page(r, source_doc, i, keep_proportion=True)\<close>;
  \<^item> \<open>Finish rs w\<close>: the rectangles drawn on a shape since its last \<^verbatim>\<open>finish\<close>, stroked
    with width \<open>w\<close> and not filled;
  \<^item> \<open>DrawLine p q w\<close>: \<^verbatim>\<open>draw_line(p, q, width=w)\<close>;
  \<^item> \<open>InsertTextbox r t a\<close>: \<^verbatim>\<open>insert_textbox(r, t, align=a)\<close>;
  \<^item> \<open>Redact r\<close>: a black-fill redaction over \<open>r\<close>, applied.
  Colours and fonts are passed through unchanged by every operation and are left out.
\<close>

datatype draw_op =
    Content nat
  | ShowPdfPage rect nat
  | Finish "rect list" real
  | DrawLine "real \<times> real" "real \<times> real" real
  | InsertTextbox rect string align
  | Redact rect

record page =
  page_width :: real
  page_height :: real
  rotation :: int
  content :: "draw_op list"

text \<open>\<^verbatim>\<open>if page.rotation != 0: page.remove_rotation()\<close>; the page rectangle is kept.\<close>

definition remove_rotation :: "page \<Rightarrow> page" where
  "remove_rotation p = (if rotation p \<noteq> 0 then p\<lparr>rotation := 0\<rparr> else p)"

text \<open>\<^verbatim>\<open>output_doc.new_page(width=w, height=h)\<close>: an empty page.\<close>

definition new_page :: "real \<Rightarrow> real \<Rightarrow> page" where
  "new_page w h = \<lparr>page_width = w, page_height = h, rotation = 0, content = []\<rparr>"

definition draw :: "draw_op list \<Rightarrow> page \<Rightarrow> page" where
  "draw ops p = p\<lparr>content := content p @ ops\<rparr>"

text \<open>The text boxes of a page with a given alignment, in drawing order.\<close>

fun texts_of :: "align \<Rightarrow> draw_op list \<Rightarrow> (rect \<times> string) list" where
  "texts_of a [] = []"
| "texts_of a (InsertTextbox r t b # ops) =
     (if a = b then (r, t) # texts_of a ops else texts_of a ops)"
| "texts_of a (_ # ops) = texts_of a ops"

text \<open>What the module logs at warning level or above, in order.\<close>

datatype log_event =
    LogFatal
  | LogError py_error
  | LogInvalidMask
  | LogWarning nat

text \<open>\<^verbatim>\<open>f"{n}"\<close> for a natural number: its decimal digits.\<close>

function str_of_nat :: "nat \<Rightarrow> string" where
  "str_of_nat n =
     (if n < 10 then [''0123456789'' ! n]
      else str_of_nat (n div 10) @ [''0123456789'' ! (n mod 10)])"
  by pat_completeness auto
termination
  by (relation "measure id") auto

declare str_of_nat.simps [simp del]

section \<open>Stamping: the per-page layout\<close>

text \<open>
  The keyword arguments of the stamping operations, under the names of
  \<^verbatim>\<open>header_and_pagenum_to_pdf\<close>. \<^verbatim>\<open>header_to_pdf\<close> calls its padding \<^verbatim>\<open>padding\<close>
  (here \<open>header_padding\<close>) and \<^verbatim>\<open>pagenum_to_pdf\<close> likewise (here \<open>footer_padding\<close>).
\<close>

record layout_config =
  resize_original :: bool
  header_height :: real
  header_padding :: real
  delimiter :: Delimiters
  stamp_only_firstpage :: bool
  draw_header_line :: bool
  header_line_width :: real
  footer_height :: real
  footer_padding :: real
  write_pagenum :: bool
  show_total_pages :: bool
  draw_footer_line :: bool
  footer_line_width :: real
  draw_content_border :: bool
  content_border_width :: real

text \<open>
  One iteration of a stamping loop returns what it logged and either the exception it
  raised or the page it created with \<^verbatim>\<open>new_page\<close> (drawn on) followed by the pages it
  appended after it with \<^verbatim>\<open>insert_pdf\<close>. Library calls are taken to succeed; the one
  exception the module's own arithmetic can raise is \<^verbatim>\<open>ZeroDivisionError\<close>.
\<close>

type_synonym iteration = "log_event list \<times> (py_error + page list)"

text \<open>The local variables of \<^verbatim>\<open>header_to_pdf\<close>, for a page of size \<open>W\<close> by \<open>H\<close>.\<close>

definition h_header_actual_rect :: "layout_config \<Rightarrow> real \<Rightarrow> real \<Rightarrow> rect" where
  "h_header_actual_rect cfg W H = Rect 0 0 W (header_height cfg)"

definition h_content_rect :: "layout_config \<Rightarrow> real \<Rightarrow> real \<Rightarrow> rect" where
  "h_content_rect cfg W H =
     (if resize_original cfg then Rect 0 (header_height cfg) W H else Rect 0 0 W H)"

text \<open>
  The frame around the shown content:
  \<^verbatim>\<open>create_rect((content_rect.width - W * ratio)/2, header_height, W * ratio, h)\<close> with
  \<^verbatim>\<open>ratio = content_rect.height / H\<close>; the division raises when \<open>H\<close> is zero.
\<close>

definition actual_shown_rect ::
  "rect \<Rightarrow> real \<Rightarrow> real \<Rightarrow> real \<Rightarrow> real \<Rightarrow> py_error + rect" where
  "actual_shown_rect content_rect W H hh h =
     (if H = 0 then Inl ZeroDivisionError
      else let resize_ratio = rect_height content_rect / H in
        Inr (create_rect ((rect_width content_rect - W * resize_ratio) / 2) hh
               (W * resize_ratio) h))"

definition header_line :: "rect \<Rightarrow> real \<Rightarrow> real \<Rightarrow> draw_op" where
  "header_line hr pad w = DrawLine (x0 hr + pad, y1 hr - pad) (x1 hr - pad, y1 hr - pad) w"

definition footer_line :: "rect \<Rightarrow> real \<Rightarrow> real \<Rightarrow> draw_op" where
  "footer_line fr pad w = DrawLine (x0 fr + pad, y0 fr + pad) (x1 fr - pad, y0 fr + pad) w"

definition header_to_pdf_page :: "layout_config \<Rightarrow> string \<Rightarrow> nat \<Rightarrow> page \<Rightarrow> iteration" where
  "header_to_pdf_page cfg header_text_content page_idx original_page =
     (let W = page_width original_page; H = page_height original_page;
          header_actual_rect = h_header_actual_rect cfg W H;
          content_rect = h_content_rect cfg W H;
          pad = header_padding cfg;
          shown = [ShowPdfPage content_rect page_idx];
          line = (if draw_header_line cfg
                  then [header_line header_actual_rect pad (header_line_width cfg)] else []);
          label = (if stamp_only_firstpage cfg then []
                   else [InsertTextbox
                           (Rect (x0 header_actual_rect + pad) (y0 header_actual_rect + pad * 2)
                              (x1 header_actual_rect - pad * 2) (y1 header_actual_rect))
                           header_text_content AlignRight])
      in if draw_content_border cfg \<and> resize_original cfg
         then (case actual_shown_rect content_rect W H (header_height cfg)
                      (rect_height content_rect - content_border_width cfg) of
                 Inl e \<Rightarrow> ([], Inl e)
               | Inr r \<Rightarrow>
                   ([], Inr [draw (shown @ [Finish [r] (content_border_width cfg)] @ line @ label)
                               (new_page W H)]))
         else ([], Inr [draw (shown @ line @ label) (new_page W H)]))"

text \<open>The local variables of \<^verbatim>\<open>pagenum_to_pdf\<close>.\<close>

definition p_footer_actual_rect :: "layout_config \<Rightarrow> real \<Rightarrow> real \<Rightarrow> rect" where
  "p_footer_actual_rect cfg W H = Rect 0 (H - footer_height cfg) W H"

definition p_content_rect :: "layout_config \<Rightarrow> real \<Rightarrow> real \<Rightarrow> rect" where
  "p_content_rect cfg W H =
     (let content_rect = Rect 0 0 W (H - footer_height cfg)
      in if \<not> resize_original cfg then Rect 0 0 W H else content_rect)"

definition inset :: "rect \<Rightarrow> real \<Rightarrow> rect" where
  "inset r pad = Rect (x0 r + pad) (y0 r + pad) (x1 r - pad) (y1 r - pad)"

definition pagenum_to_pdf_page :: "layout_config \<Rightarrow> nat \<Rightarrow> nat \<Rightarrow> page \<Rightarrow> iteration" where
  "pagenum_to_pdf_page cfg total_pages page_idx original_page =
     (let W = page_width original_page; H = page_height original_page;
          footer_actual_rect = p_footer_actual_rect cfg W H;
          content_rect = p_content_rect cfg W H;
          page_number_text =
            (if show_total_pages cfg
             then str_of_nat (page_idx + 1) @ '' / '' @ str_of_nat total_pages
             else str_of_nat (page_idx + 1));
          line = (if draw_footer_line cfg
                  then [footer_line footer_actual_rect (footer_padding cfg)
                          (footer_line_width cfg)] else [])
      in ([], Inr [draw ([ShowPdfPage content_rect page_idx,
                          InsertTextbox (inset footer_actual_rect (footer_padding cfg))
                            page_number_text AlignCenter] @ line)
                     (new_page W H)]))"

text \<open>The local variables of \<^verbatim>\<open>header_and_pagenum_to_pdf\<close>.\<close>

definition actual_header_rect :: "layout_config \<Rightarrow> real \<Rightarrow> real \<Rightarrow> rect" where
  "actual_header_rect cfg W H = Rect 0 0 W (header_height cfg)"

definition actual_footer_rect :: "layout_config \<Rightarrow> real \<Rightarrow> real \<Rightarrow> rect" where
  "actual_footer_rect cfg W H = Rect 0 (H - footer_height cfg) W H"

definition content_rect :: "layout_config \<Rightarrow> real \<Rightarrow> real \<Rightarrow> rect" where
  "content_rect cfg W H =
     (if resize_original cfg then Rect 0 (header_height cfg) W (H - footer_height cfg)
      else Rect 0 0 W H)"

definition header_and_pagenum_to_pdf_page ::
  "layout_config \<Rightarrow> string \<Rightarrow> nat \<Rightarrow> nat \<Rightarrow> page \<Rightarrow> iteration" where
  "header_and_pagenum_to_pdf_page cfg header_text_content total_pages page_idx original_page =
     (let W = page_width original_page; H = page_height original_page;
          hr = actual_header_rect cfg W H;
          fr = actual_footer_rect cfg W H;
          cr = content_rect cfg W H;
          hpad = header_padding cfg;
          fpad = footer_padding cfg
      in if rect_height cr \<le> 0
         then ([LogWarning (page_idx + 1)], Inr [new_page W H, original_page])
         else
          (let shown = [ShowPdfPage cr page_idx];
               page_number_text =
                 (if show_total_pages cfg
                  then '' '' @ str_of_nat (page_idx + 1) @ '' / '' @ str_of_nat total_pages
                  else '' '' @ str_of_nat (page_idx + 1));
               number = (if write_pagenum cfg
                         then [InsertTextbox (inset fr fpad) page_number_text AlignCenter]
                         else []);
               fline = (if draw_footer_line cfg
                        then [footer_line fr fpad (footer_line_width cfg)] else []);
               hline = (if draw_header_line cfg
                        then [header_line hr hpad (header_line_width cfg)] else []);
               label = (if stamp_only_firstpage cfg \<and> page_idx > 0 then []
                        else [InsertTextbox
                                (Rect (x0 hr + hpad) (y0 hr + hpad * 3) (x1 hr - hpad * 3) (y1 hr))
                                header_text_content AlignRight])
           in if draw_content_border cfg \<and> resize_original cfg
              then (case actual_shown_rect cr W H (header_height cfg) (rect_height cr) of
                      Inl e \<Rightarrow> ([], Inl e)
                    | Inr r \<Rightarrow>
                        ([], Inr [draw (shown @ number @ fline @
                                        [Finish [r] (content_border_width cfg)] @ hline @ label)
                                    (new_page W H)]))
              else ([], Inr [draw (shown @ number @ fline @ hline @ label) (new_page W H)])))"

text \<open>
  The page loop: \<^verbatim>\<open>for page_idx in range(source_doc.page_count)\<close>. Each page is read
  with its rotation removed; the loop stops at the first exception.
\<close>

fun for_pages :: "(nat \<Rightarrow> page \<Rightarrow> iteration) \<Rightarrow> nat \<Rightarrow> page list \<Rightarrow> iteration" where
  "for_pages body page_idx [] = ([], Inr [])"
| "for_pages body page_idx (p # ps) =
     (case body page_idx (remove_rotation p) of
        (logged, Inl e) \<Rightarrow> (logged, Inl e)
      | (logged, Inr out) \<Rightarrow>
          (case for_pages body (Suc page_idx) ps of
             (logged', Inl e) \<Rightarrow> (logged @ logged', Inl e)
           | (logged', Inr out') \<Rightarrow> (logged @ logged', Inr (out @ out'))))"




text \<open>The page-number text in the specification's words.\<close>

definition spec_pagenum_text :: "bool \<Rightarrow> nat \<Rightarrow> nat \<Rightarrow> string" where
  "spec_pagenum_text showTotal index totalPages =
     (if showTotal then str_of_nat (index + 1) @ '' / '' @ str_of_nat totalPages
      else str_of_nat (index + 1))"

text \<open>The text boxes on the page an iteration created, by alignment.\<close>

definition stamped_texts :: "align \<Rightarrow> iteration \<Rightarrow> (rect \<times> string) list" where
  "stamped_texts a it =
     (case snd it of Inl e \<Rightarrow> [] | Inr [] \<Rightarrow> [] | Inr (pg # _) \<Rightarrow> texts_of a (content pg))"




text \<open>The default keyword arguments of \<^verbatim>\<open>header_and_pagenum_to_pdf\<close>.\<close>

definition default_config :: layout_config where
  "default_config =
     \<lparr>resize_original = True, header_height = 70, header_padding = 10, delimiter = Space,
      stamp_only_firstpage = False, draw_header_line = False, header_line_width = 0.5,
      footer_height = 30, footer_padding = 3, write_pagenum = True,
      show_total_pages = False, draw_footer_line = False, footer_line_width = 0.5,
      draw_content_border = True, content_border_width = 0.5\<rparr>"

text \<open>The page of the specification's end-to-end example: 200 by 300, with some content.\<close>

definition example_page :: page where
  "example_page = \<lparr>page_width = 200, page_height = 300, rotation = 0, content = [Content 1]\<rparr>"

section \<open>The grid renderer\<close>

text \<open>\<^verbatim>\<open>int(x)\<close> on a float truncates towards zero.\<close>

definition py_int :: "real \<Rightarrow> int" where
  "py_int x = (if 0 \<le> x then \<lfloor>x\<rfloor> else \<lceil>x\<rceil>)"

text \<open>
  \<^verbatim>\<open>range(0, stop, step)\<close>: \<^verbatim>\<open>ValueError\<close> for a zero step, the ascending progression below
  \<open>stop\<close> for a positive step, the descending one above \<open>stop\<close> for a negative step.
\<close>

function range_up :: "int \<Rightarrow> int \<Rightarrow> int \<Rightarrow> int list" where
  "range_up i stop step =
     (if 0 < step \<and> i < stop then i # range_up (i + step) stop step else [])"
  by pat_completeness auto
termination
  by (relation "measure (\<lambda>(i, stop, step). nat (stop - i))") auto

declare range_up.simps [simp del]

function range_down :: "int \<Rightarrow> int \<Rightarrow> int \<Rightarrow> int list" where
  "range_down i stop step =
     (if step < 0 \<and> stop < i then i # range_down (i + step) stop step else [])"
  by pat_completeness auto
termination
  by (relation "measure (\<lambda>(i, stop, step). nat (i - stop))") auto

declare range_down.simps [simp del]

definition py_range :: "int \<Rightarrow> int \<Rightarrow> py_error + int list" where
  "py_range stop step =
     (if step = 0 then Inl ValueError
      else if 0 < step then Inr (range_up 0 stop step)
      else Inr (range_down 0 stop step))"

text \<open>
  The cell the loop body builds at \<open>(x_start, y_start)\<close>, clipped to the page, and the
  test under which it is drawn.
\<close>

definition grid_cell :: "real \<Rightarrow> real \<Rightarrow> real \<Rightarrow> int \<Rightarrow> int \<Rightarrow> rect" where
  "grid_cell W H interval y_start x_start =
     Rect (real_of_int x_start) (real_of_int y_start)
       (min (real_of_int x_start + interval) W) (min (real_of_int y_start + interval) H)"

definition drawable :: "rect \<Rightarrow> bool" where
  "drawable r = (x1 r > x0 r \<and> y1 r > y0 r)"

text \<open>
  One pass: the two nested iterations over \<^verbatim>\<open>range(0, int(page_height), int(interval))\<close> and
  \<^verbatim>\<open>range(0, int(page_width), int(interval))\<close>, rows outermost.
\<close>

definition grid_pass :: "real \<Rightarrow> real \<Rightarrow> real \<Rightarrow> py_error + rect list" where
  "grid_pass W H interval =
     (case py_range (py_int H) (py_int interval) of
        Inl e \<Rightarrow> Inl e
      | Inr ys \<Rightarrow>
          (case py_range (py_int W) (py_int interval) of
             Inl e \<Rightarrow> Inl e
           | Inr xs \<Rightarrow>
               Inr (concat (map (\<lambda>y_start.
                      filter drawable (map (grid_cell W H interval y_start) xs)) ys))))"

text \<open>The three passes on one page; the shape is committed after the third.\<close>

definition grid_to_pdf_page :: "real \<Rightarrow> real \<Rightarrow> page \<Rightarrow> py_error + page" where
  "grid_to_pdf_page grid_interval grid_width pg =
     (let W = page_width pg; H = page_height pg in
      case grid_pass W H grid_interval of
        Inl e \<Rightarrow> Inl e
      | Inr thin \<Rightarrow>
          (case grid_pass W H (grid_interval * 5) of
             Inl e \<Rightarrow> Inl e
           | Inr medium \<Rightarrow>
               (case grid_pass W H (grid_interval * 10) of
                  Inl e \<Rightarrow> Inl e
                | Inr thick \<Rightarrow>
                    Inr (draw [Finish thin grid_width, Finish medium (grid_width * 5),
                               Finish thick (grid_width * 10)] pg))))"

fun grid_pages :: "real \<Rightarrow> real \<Rightarrow> page list \<Rightarrow> py_error + page list" where
  "grid_pages grid_interval grid_width [] = Inr []"
| "grid_pages grid_interval grid_width (p # ps) =
     (case grid_to_pdf_page grid_interval grid_width (remove_rotation p) of
        Inl e \<Rightarrow> Inl e
      | Inr p' \<Rightarrow>
          (case grid_pages grid_interval grid_width ps of
             Inl e \<Rightarrow> Inl e
           | Inr ps' \<Rightarrow> Inr (p' # ps')))"

text \<open>The coordinates at which the cells of a pass have a vertical or a horizontal edge.\<close>

definition x_bounds :: "rect list \<Rightarrow> real set" where
  "x_bounds cells = x0 ` set cells \<union> x1 ` set cells"

definition y_bounds :: "rect list \<Rightarrow> real set" where
  "y_bounds cells = y0 ` set cells \<union> y1 ` set cells"

section \<open>The redaction engine\<close>

text \<open>
  An element of \<^verbatim>\<open>mask_rect_array\<close>: a library rectangle, or any other object
  (\<^verbatim>\<open>isinstance(mask_rect, pymupdf.Rect)\<close> is false).
\<close>

datatype mask_arg = IsRect rect | NotRect

text \<open>
  The library's \<^verbatim>\<open>Rect.is_valid\<close>, which line 88 of the module calls:
  \<^verbatim>\<open>x0 <= x1 and y0 <= y1\<close>. A rectangle of zero area is valid.
\<close>

definition is_valid :: "rect \<Rightarrow> bool" where
  "is_valid r = (x0 r \<le> x1 r \<and> y0 r \<le> y1 r)"

text \<open>
  The loop over the requested masks on one page: the redaction annotations it registers,
  in order, and what it logs.
\<close>

fun add_redact_annots :: "mask_arg list \<Rightarrow> rect list \<times> log_event list" where
  "add_redact_annots [] = ([], [])"
| "add_redact_annots (IsRect r # ms) =
     (case add_redact_annots ms of (annots, logged) \<Rightarrow>
        if is_valid r then (r # annots, logged) else (annots, LogInvalidMask # logged))"
| "add_redact_annots (NotRect # ms) =
     (case add_redact_annots ms of (annots, logged) \<Rightarrow> (annots, LogInvalidMask # logged))"

text \<open>\<^verbatim>\<open>page.apply_redactions()\<close> applies every registered annotation.\<close>

definition apply_redactions :: "rect list \<Rightarrow> page \<Rightarrow> page" where
  "apply_redactions annots pg = draw (map Redact annots) pg"

definition masking_to_pdf_page :: "mask_arg list \<Rightarrow> page \<Rightarrow> log_event list \<times> page" where
  "masking_to_pdf_page mask_rect_array pg =
     (case add_redact_annots mask_rect_array of
        (annots, logged) \<Rightarrow> (logged, apply_redactions annots (remove_rotation pg)))"

fun masking_pages :: "mask_arg list \<Rightarrow> page list \<Rightarrow> log_event list \<times> page list" where
  "masking_pages mask_rect_array [] = ([], [])"
| "masking_pages mask_rect_array (p # ps) =
     (case masking_to_pdf_page mask_rect_array p of
        (logged, p') \<Rightarrow>
          (case masking_pages mask_rect_array ps of
             (logged', ps') \<Rightarrow> (logged @ logged', p' # ps')))"

section \<open>Files, document sessions and the operations\<close>

text \<open>
  The file system maps a path to what is there: a folder, a file the document library
  cannot open, or a document with its pages. \<open>glob_pdf w d\<close> is what
  \<^verbatim>\<open>glob.glob(d + "/*.pdf")\<close> returns, in the order the operating system lists the folder.
  \<open>trace\<close> records, in order, what an operation logs at warning level or above, the
  document sessions it opens and closes, and its writes. Paths are absolute and
  normalised, so that \<^verbatim>\<open>os.path.abspath\<close> returns its argument.
\<close>

datatype entry = Folder | NotPdf | Pdf "page list"

datatype handle = Doc | SourceDoc | OutputDoc | TmpDoc nat

datatype event =
    Log log_event
  | Open handle
  | Close handle
  | Save string
  | Makedirs string

record world =
  files :: "string \<rightharpoonup> entry"
  glob_pdf :: "string \<Rightarrow> string list"
  trace :: "event list"

definition exists :: "world \<Rightarrow> string \<Rightarrow> bool" where
  "exists w path = (files w path \<noteq> None)"

definition emit :: "event \<Rightarrow> world \<Rightarrow> world" where
  "emit e w = w\<lparr>trace := trace w @ [e]\<rparr>"

definition logs :: "log_event list \<Rightarrow> world \<Rightarrow> world" where
  "logs logged w = w\<lparr>trace := trace w @ map Log logged\<rparr>"

text \<open>\<^verbatim>\<open>pymupdf.open(path)\<close> raises unless the path holds a document.\<close>

definition open_doc :: "world \<Rightarrow> string \<Rightarrow> py_error + page list" where
  "open_doc w path = (case files w path of Some (Pdf pages) \<Rightarrow> Inr pages | _ \<Rightarrow> Inl OpenError)"

text \<open>\<^verbatim>\<open>doc.save(path, ...)\<close> writes the document, replacing what the path held.\<close>

definition save :: "string \<Rightarrow> page list \<Rightarrow> world \<Rightarrow> world" where
  "save path pages w = emit (Save path) (w\<lparr>files := (files w)(path \<mapsto> Pdf pages)\<rparr>)"

definition makedirs :: "string \<Rightarrow> world \<Rightarrow> world" where
  "makedirs path w = emit (Makedirs path) (w\<lparr>files := (files w)(path \<mapsto> Folder)\<rparr>)"

text \<open>
  A local variable that holds a document session is unbound until the assignment,
  then open, then closed.
\<close>

datatype session = Unbound | IsOpen | IsClosed

text \<open>
  The release in the \<^verbatim>\<open>finally\<close> blocks:
  \<^verbatim>\<open>if 'doc' in locals() and not doc.is_closed: doc.close()\<close>.
\<close>

definition finally_close :: "handle \<Rightarrow> session \<Rightarrow> world \<Rightarrow> world" where
  "finally_close h s w = (if s \<noteq> Unbound \<and> \<not> (s = IsClosed) then emit (Close h) w else w)"

text \<open>
  The release in \<^verbatim>\<open>grid_to_pdf\<close>: \<^verbatim>\<open>if 'doc' in locals() and doc.is_closed: doc.close()\<close>.
\<close>

definition finally_close_grid :: "handle \<Rightarrow> session \<Rightarrow> world \<Rightarrow> world" where
  "finally_close_grid h s w = (if s \<noteq> Unbound \<and> s = IsClosed then emit (Close h) w else w)"

text \<open>\<^verbatim>\<open>os.path.basename\<close> and the root part of \<^verbatim>\<open>os.path.splitext\<close> (POSIX paths).\<close>

definition basename :: "string \<Rightarrow> string" where
  "basename path = rev (takeWhile (\<lambda>c. c \<noteq> CHR ''/'') (rev path))"

definition splitext_root :: "string \<Rightarrow> string" where
  "splitext_root name =
     (let rest = dropWhile (\<lambda>c. c \<noteq> CHR ''.'') (rev name) in
      case rest of
        [] \<Rightarrow> name
      | dot # stem \<Rightarrow> if list_all (\<lambda>c. c = CHR ''.'') stem then name else rev stem)"

definition masking_to_pdf :: "string \<Rightarrow> string \<Rightarrow> mask_arg list \<Rightarrow> bool \<Rightarrow> world \<Rightarrow> world" where
  "masking_to_pdf input_pdf_path output_pdf_path mask_rect_array overwrite w =
     (if \<not> exists w input_pdf_path then finally_close Doc Unbound (emit (Log LogFatal) w)
      else if input_pdf_path = output_pdf_path
      then finally_close Doc Unbound (emit (Log LogFatal) w)
      else if \<not> overwrite \<and> exists w output_pdf_path
      then finally_close Doc Unbound (emit (Log LogFatal) w)
      else
        (case open_doc w input_pdf_path of
           Inl e \<Rightarrow> finally_close Doc Unbound (emit (Log (LogError e)) w)
         | Inr doc \<Rightarrow>
             (case masking_pages mask_rect_array doc of
                (logged, pages) \<Rightarrow>
                  finally_close Doc IsOpen
                    (save output_pdf_path pages (logs logged (emit (Open Doc) w))))))"

text \<open>
  In \<^verbatim>\<open>grid_to_pdf\<close> the \<^verbatim>\<open>except\<close> clause logs at debug level, below the logger's
  threshold, so an exception leaves no log entry.
\<close>

definition grid_to_pdf ::
  "string \<Rightarrow> string \<Rightarrow> real \<Rightarrow> real \<Rightarrow> bool \<Rightarrow> world \<Rightarrow> world" where
  "grid_to_pdf input_pdf_path output_pdf_path grid_interval grid_width overwrite w =
     (if \<not> exists w input_pdf_path then finally_close_grid Doc Unbound (emit (Log LogFatal) w)
      else if input_pdf_path = output_pdf_path
      then finally_close_grid Doc Unbound (emit (Log LogFatal) w)
      else if \<not> overwrite \<and> exists w output_pdf_path
      then finally_close_grid Doc Unbound (emit (Log LogFatal) w)
      else
        (case open_doc w input_pdf_path of
           Inl e \<Rightarrow> finally_close_grid Doc Unbound w
         | Inr doc \<Rightarrow>
             (case grid_pages grid_interval grid_width doc of
                Inl e \<Rightarrow> finally_close_grid Doc IsOpen (emit (Open Doc) w)
              | Inr pages \<Rightarrow>
                  finally_close_grid Doc IsOpen
                    (save output_pdf_path pages (emit (Open Doc) w)))))"

text \<open>The two releases of the stamping operations: the source, then the output.\<close>

definition finally_close2 :: "session \<Rightarrow> session \<Rightarrow> world \<Rightarrow> world" where
  "finally_close2 source_doc output_doc w =
     finally_close OutputDoc output_doc (finally_close SourceDoc source_doc w)"

definition header_to_pdf :: "string \<Rightarrow> string \<Rightarrow> bool \<Rightarrow> layout_config \<Rightarrow> world \<Rightarrow> world" where
  "header_to_pdf input_pdf_path output_pdf_path overwrite cfg w =
     (if \<not> exists w input_pdf_path then finally_close2 Unbound Unbound (emit (Log LogFatal) w)
      else if input_pdf_path = output_pdf_path
      then finally_close2 Unbound Unbound (emit (Log LogFatal) w)
      else
        (let w1 = (if \<not> overwrite \<and> exists w output_pdf_path
                   then emit (Log LogFatal) w else w)
         in case split_by_delimiter (splitext_root (basename input_pdf_path)) (delimiter cfg) of
              Inl e \<Rightarrow> finally_close2 Unbound Unbound (emit (Log (LogError e)) w1)
            | Inr header_text_content \<Rightarrow>
                (case open_doc w1 input_pdf_path of
                   Inl e \<Rightarrow> finally_close2 Unbound Unbound (emit (Log (LogError e)) w1)
                 | Inr source_doc \<Rightarrow>
                     (let w2 = emit (Open OutputDoc) (emit (Open SourceDoc) w1)
                      in case for_pages (header_to_pdf_page cfg header_text_content) 0
                                source_doc of
                           (logged, Inl e) \<Rightarrow>
                             finally_close2 IsOpen IsOpen
                               (emit (Log (LogError e)) (logs logged w2))
                         | (logged, Inr output_doc) \<Rightarrow>
                             finally_close2 IsOpen IsClosed
                               (emit (Close OutputDoc)
                                  (save output_pdf_path output_doc (logs logged w2)))))))"

definition pagenum_to_pdf :: "string \<Rightarrow> string \<Rightarrow> bool \<Rightarrow> layout_config \<Rightarrow> world \<Rightarrow> world" where
  "pagenum_to_pdf input_pdf_path output_pdf_path overwrite cfg w =
     (if \<not> exists w input_pdf_path then finally_close2 Unbound Unbound (emit (Log LogFatal) w)
      else if input_pdf_path = output_pdf_path
      then finally_close2 Unbound Unbound (emit (Log LogFatal) w)
      else
        (let w1 = (if \<not> overwrite \<and> exists w output_pdf_path
                   then emit (Log LogFatal) w else w)
         in case open_doc w1 input_pdf_path of
              Inl e \<Rightarrow> finally_close2 Unbound Unbound (emit (Log (LogError e)) w1)
            | Inr source_doc \<Rightarrow>
                (let w2 = emit (Open OutputDoc) (emit (Open SourceDoc) w1);
                     total_pages = length source_doc
                 in case for_pages (pagenum_to_pdf_page cfg total_pages) 0 source_doc of
                      (logged, Inl e) \<Rightarrow>
                        finally_close2 IsOpen IsOpen (emit (Log (LogError e)) (logs logged w2))
                    | (logged, Inr output_doc) \<Rightarrow>
                        finally_close2 IsOpen IsClosed
                          (emit (Close OutputDoc)
                             (save output_pdf_path output_doc (logs logged w2))))))"

definition header_and_pagenum_to_pdf ::
  "string \<Rightarrow> string \<Rightarrow> bool \<Rightarrow> layout_config \<Rightarrow> world \<Rightarrow> world" where
  "header_and_pagenum_to_pdf input_pdf_path output_pdf_path overwrite cfg w =
     (if \<not> exists w input_pdf_path then finally_close2 Unbound Unbound (emit (Log LogFatal) w)
      else if input_pdf_path = output_pdf_path
      then finally_close2 Unbound Unbound (emit (Log LogFatal) w)
      else
        (let w1 = (if \<not> overwrite \<and> exists w output_pdf_path
                   then emit (Log LogFatal) w else w)
         in case split_by_delimiter (splitext_root (basename input_pdf_path)) (delimiter cfg) of
              Inl e \<Rightarrow> finally_close2 Unbound Unbound (emit (Log (LogError e)) w1)
            | Inr header_text_content \<Rightarrow>
                (case open_doc w1 input_pdf_path of
                   Inl e \<Rightarrow> finally_close2 Unbound Unbound (emit (Log (LogError e)) w1)
                 | Inr source_doc \<Rightarrow>
                     (let w2 = emit (Open OutputDoc) (emit (Open SourceDoc) w1);
                          total_pages = length source_doc
                      in case for_pages
                                (header_and_pagenum_to_pdf_page cfg header_text_content
                                   total_pages) 0 source_doc of
                           (logged, Inl e) \<Rightarrow>
                             finally_close2 IsOpen IsOpen
                               (emit (Log (LogError e)) (logs logged w2))
                         | (logged, Inr output_doc) \<Rightarrow>
                             finally_close2 IsClosed IsClosed
                               (emit (Close SourceDoc) (emit (Close OutputDoc)
                                  (save output_pdf_path output_doc (logs logged w2))))))))"

text \<open>
  \<^verbatim>\<open>header_and_frame_to_pdf\<close> passes its own arguments on and leaves the others of
  \<^verbatim>\<open>header_and_pagenum_to_pdf\<close> at their defaults, but for \<^verbatim>\<open>write_pagenum=False\<close> and
  \<^verbatim>\<open>draw_content_border=True\<close>.
\<close>

definition header_and_frame_to_pdf ::
  "string \<Rightarrow> string \<Rightarrow> bool \<Rightarrow> layout_config \<Rightarrow> world \<Rightarrow> world" where
  "header_and_frame_to_pdf input_pdf_path output_pdf_path overwrite cfg w =
     header_and_pagenum_to_pdf input_pdf_path output_pdf_path overwrite
       (default_config\<lparr>header_height := header_height cfg, header_padding := header_padding cfg,
          delimiter := delimiter cfg, stamp_only_firstpage := stamp_only_firstpage cfg,
          footer_height := footer_height cfg, footer_padding := footer_padding cfg,
          write_pagenum := False, draw_content_border := True,
          content_border_width := content_border_width cfg\<rparr>) w"

text \<open>
  The folder-wide operations share one shape: two guards, the output folder created when
  absent, then the single-document operation on every path of the listing, in the
  listing's order, with the output path \<^verbatim>\<open>output_folder + "/" + basename(input)\<close>.
\<close>

definition output_path :: "string \<Rightarrow> string \<Rightarrow> string" where
  "output_path output_folder_path pdf_in_file =
     output_folder_path @ ''/'' @ basename pdf_in_file"

fun for_files :: "(string \<Rightarrow> string \<Rightarrow> world \<Rightarrow> world) \<Rightarrow> string \<Rightarrow> string list \<Rightarrow> world \<Rightarrow> world" where
  "for_files operation output_folder_path [] w = w"
| "for_files operation output_folder_path (pdf_in_file # rest) w =
     for_files operation output_folder_path rest
       (operation pdf_in_file (output_path output_folder_path pdf_in_file) w)"

definition in_folder ::
  "(string \<Rightarrow> string \<Rightarrow> world \<Rightarrow> world) \<Rightarrow> string \<Rightarrow> string \<Rightarrow> world \<Rightarrow> world" where
  "in_folder operation input_folder_path output_folder_path w =
     (if input_folder_path = output_folder_path then emit (Log LogFatal) w
      else if \<not> exists w input_folder_path then emit (Log LogFatal) w
      else
        (let w1 = (if \<not> exists w output_folder_path then makedirs output_folder_path w else w)
         in for_files operation output_folder_path (glob_pdf w1 input_folder_path) w1))"

definition masking_to_pdf_in_folder ::
  "string \<Rightarrow> string \<Rightarrow> mask_arg list \<Rightarrow> bool \<Rightarrow> world \<Rightarrow> world" where
  "masking_to_pdf_in_folder input_folder_path output_folder_path rect_array overwrite =
     in_folder (\<lambda>pdf_in_file pdf_out_file.
        masking_to_pdf pdf_in_file pdf_out_file rect_array overwrite)
       input_folder_path output_folder_path"

text \<open>\<^verbatim>\<open>header_to_pdf_in_folder\<close> has no overwrite argument and passes none on.\<close>

definition header_to_pdf_in_folder :: "string \<Rightarrow> string \<Rightarrow> layout_config \<Rightarrow> world \<Rightarrow> world" where
  "header_to_pdf_in_folder input_folder_path output_folder_path cfg =
     in_folder (\<lambda>pdf_in_file pdf_out_file. header_to_pdf pdf_in_file pdf_out_file True cfg)
       input_folder_path output_folder_path"

definition header_and_pagenum_to_pdf_in_folder ::
  "string \<Rightarrow> string \<Rightarrow> bool \<Rightarrow> layout_config \<Rightarrow> world \<Rightarrow> world" where
  "header_and_pagenum_to_pdf_in_folder input_folder_path output_folder_path overwrite cfg =
     in_folder (\<lambda>pdf_in_file pdf_out_file.
        header_and_pagenum_to_pdf pdf_in_file pdf_out_file overwrite cfg)
       input_folder_path output_folder_path"

definition header_and_frame_to_pdf_in_folder ::
  "string \<Rightarrow> string \<Rightarrow> bool \<Rightarrow> layout_config \<Rightarrow> world \<Rightarrow> world" where
  "header_and_frame_to_pdf_in_folder input_folder_path output_folder_path overwrite cfg =
     in_folder (\<lambda>pdf_in_file pdf_out_file.
        header_and_frame_to_pdf pdf_in_file pdf_out_file overwrite cfg)
       input_folder_path output_folder_path"

text \<open>
  \<^verbatim>\<open>concat_pdf\<close>. The loop opens every file of the sorted listing as \<^verbatim>\<open>tmp_doc\<close>, appends its
  pages to the output and closes it; \<open>k\<close> counts the sessions opened so far. The natural
  sort is the library function \<^verbatim>\<open>natsort.natsorted\<close>, a parameter here.
\<close>

fun concat_files ::
  "string list \<Rightarrow> nat \<Rightarrow> page list \<Rightarrow> world \<Rightarrow> world \<times> nat \<times> (py_error + page list)" where
  "concat_files [] k output_doc w = (w, k, Inr output_doc)"
| "concat_files (pdf_in_file # rest) k output_doc w =
     (case open_doc w pdf_in_file of
        Inl e \<Rightarrow> (w, k, Inl e)
      | Inr tmp_doc \<Rightarrow>
          concat_files rest (Suc k) (output_doc @ tmp_doc)
            (emit (Close (TmpDoc k)) (emit (Open (TmpDoc k)) w)))"

definition concat_pdf ::
  "(string list \<Rightarrow> string list) \<Rightarrow> string \<Rightarrow> string \<Rightarrow> bool \<Rightarrow> world \<Rightarrow> world" where
  "concat_pdf natsorted input_folder_path output_pdf_path overwrite w =
     (if \<not> exists w input_folder_path then emit (Log LogFatal) w
      else
        (let w1 = (if \<not> overwrite \<and> exists w output_pdf_path
                   then emit (Log LogFatal) w else w);
             w2 = emit (Open OutputDoc) w1;
             output_doc_paths = natsorted (glob_pdf w2 input_folder_path)
         in case concat_files output_doc_paths 0 [] w2 of
              (w3, k, Inl e) \<Rightarrow>
                finally_close OutputDoc IsOpen
                  (finally_close (TmpDoc (k - 1)) (if k = 0 then Unbound else IsClosed)
                     (emit (Log (LogError e)) w3))
            | (w3, k, Inr output_doc) \<Rightarrow>
                finally_close OutputDoc IsClosed
                  (finally_close (TmpDoc (k - 1)) (if k = 0 then Unbound else IsClosed)
                     (emit (Close OutputDoc) (save output_pdf_path output_doc w3)))))"

text \<open>Reading a trace: the paths written, and how often a session was opened or closed.\<close>

fun saved_paths :: "event list \<Rightarrow> string list" where
  "saved_paths [] = []"
| "saved_paths (Save path # es) = path # saved_paths es"
| "saved_paths (_ # es) = saved_paths es"

definition opens :: "handle \<Rightarrow> event list \<Rightarrow> nat" where
  "opens h es = length (filter (\<lambda>e. e = Open h) es)"

definition closes :: "handle \<Rightarrow> event list \<Rightarrow> nat" where
  "closes h es = length (filter (\<lambda>e. e = Close h) es)"

text \<open>
  The worlds of the examples: a folder \<^verbatim>\<open>/in\<close> with one or two one-page documents, and
  possibly an earlier output in \<^verbatim>\<open>/out\<close>.
\<close>

definition other_page :: page where
  "other_page = \<lparr>page_width = 200, page_height = 300, rotation = 0, content = [Content 2]\<rparr>"

definition example_world :: world where
  "example_world =
     \<lparr>files = [''/in'' \<mapsto> Folder, ''/in/a.pdf'' \<mapsto> Pdf [example_page],
               ''/out'' \<mapsto> Folder, ''/out/a.pdf'' \<mapsto> Pdf [other_page]],
      glob_pdf = (\<lambda>d. if d = ''/in'' then [''/in/a.pdf''] else []),
      trace = []\<rparr>"

definition numbered_world :: world where
  "numbered_world =
     \<lparr>files = [''/in'' \<mapsto> Folder, ''/in/10.pdf'' \<mapsto> Pdf [example_page],
               ''/in/2.pdf'' \<mapsto> Pdf [other_page]],
      glob_pdf = (\<lambda>d. if d = ''/in'' then [''/in/10.pdf'', ''/in/2.pdf''] else []),
      trace = []\<rparr>"

text \<open>
  The redaction rule in the specification's words: a mask is registered when it is a
  rectangle with \<open>x1 > x0\<close> and \<open>y1 > y0\<close>; the masks registered on a page are the requested
  ones that pass, in the order requested.
\<close>

definition spec_mask_ok :: "mask_arg \<Rightarrow> bool" where
  "spec_mask_ok m = (case m of IsRect r \<Rightarrow> x1 r > x0 r \<and> y1 r > y0 r | NotRect \<Rightarrow> False)"

definition spec_registered :: "mask_arg list \<Rightarrow> rect list" where
  "spec_registered masks =
     List.map_filter (\<lambda>m. case m of IsRect r \<Rightarrow> if spec_mask_ok m then Some r else None
                                    | NotRect \<Rightarrow> None) masks"

text \<open>
  The test of line 88 on one requested mask, and the masks of a request that pass it, in
  the order requested.
\<close>

definition mask_passes :: "mask_arg \<Rightarrow> bool" where
  "mask_passes m = (case m of IsRect r \<Rightarrow> x0 r \<le> x1 r \<and> y0 r \<le> y1 r | NotRect \<Rightarrow> False)"

definition passing_masks :: "mask_arg list \<Rightarrow> rect list" where
  "passing_masks masks =
     List.map_filter (\<lambda>m. case m of IsRect r \<Rightarrow> if mask_passes m then Some r else None
                                    | NotRect \<Rightarrow> None) masks"

text \<open>The pages of the document at a path, none when the path holds no document.\<close>

definition pages_at :: "world \<Rightarrow> string \<Rightarrow> page list" where
  "pages_at w path = (case files w path of Some (Pdf pages) \<Rightarrow> pages | _ \<Rightarrow> [])"

text \<open>A page of 20 by 10, small enough to list its grid cells.\<close>

definition small_page :: page where
  "small_page = \<lparr>page_width = 20, page_height = 10, rotation = 0, content = [Content 3]\<rparr>"

text \<open>A page of 20.5 by 10: its width is no whole number.\<close>

definition fractional_page :: page where
  "fractional_page = \<lparr>page_width = 20.5, page_height = 10, rotation = 0, content = [Content 4]\<rparr>"

text \<open>The configuration of the specification's collapse example: header 150, footer 160.\<close>

definition collapse_config :: layout_config where
  "collapse_config = default_config\<lparr>header_height := 150, footer_height := 160\<rparr>"

section \<open>Properties of the delimiter rule\<close>

lemma split_sep_from_hd:
  "\<exists>rest. split_sep_from sep cur str = (rev cur @ takeWhile (\<lambda>x. x \<noteq> sep) str) # rest"
proof (induction str arbitrary: cur)
  case Nil
  then show ?case by simp
next
  case (Cons a s)
  show ?case using Cons [of "a # cur"] by auto
qed

lemma index0_split_sep:
  "index0 (split_sep sep str) = Inr (takeWhile (\<lambda>x. x \<noteq> sep) str)"
proof -
  obtain rest where "split_sep sep str = takeWhile (\<lambda>x. x \<noteq> sep) str # rest"
    using split_sep_from_hd [of sep "[]" str] by (auto simp: split_sep_def)
  then show ?thesis by (simp add: index0_def)
qed

lemma split_ws_from_word:
  "cur \<noteq> [] \<Longrightarrow>
   \<exists>rest. split_ws_from cur str = (rev cur @ takeWhile (\<lambda>x. \<not> is_space x) str) # rest"
proof (induction str arbitrary: cur)
  case Nil
  then show ?case by simp
next
  case (Cons a s)
  show ?case using Cons.prems Cons.IH [of "a # cur"] by auto
qed

lemma split_ws_from_skip:
  "\<exists>x\<in>set str. \<not> is_space x \<Longrightarrow>
   \<exists>rest. split_ws_from [] str =
     takeWhile (\<lambda>x. \<not> is_space x) (dropWhile is_space str) # rest"
proof (induction str)
  case Nil
  then show ?case by simp
next
  case (Cons x xs)
  show ?case
  proof (cases "is_space x")
    case True
    with Cons show ?thesis by auto
  next
    case False
    then show ?thesis
      using split_ws_from_word [of "[x]" xs] by auto
  qed
qed

lemma split_ws_from_blank:
  "\<forall>x\<in>set str. is_space x \<Longrightarrow> split_ws_from [] str = []"
  by (induction str) auto

text \<open>
  Claim C8, as amended. For the variant \<open>No\<close> the text is returned whole. For every
  variant other than \<open>No\<close> and \<open>Space\<close> the result is the segment of the text before the
  first occurrence of the variant's character, which is the whole text when the
  character does not occur. For \<open>Space\<close> the separator is any run of whitespace and
  leading whitespace is skipped: when the text has a non-whitespace character, the result
  is its first whitespace-delimited word.
\<close>

theorem split_by_delimiter_first_segment:
  "(d = No \<longrightarrow> split_by_delimiter str d = Inr str) \<and>
   (d \<noteq> No \<and> d \<noteq> Space \<longrightarrow>
      split_by_delimiter str d = Inr (spec_first_segment str d) \<and>
      (\<forall>c. delimiter_char d = Some c \<and> c \<notin> set str \<longrightarrow>
         split_by_delimiter str d = Inr str)) \<and>
   (d = Space \<and> (\<exists>x\<in>set str. \<not> is_space x) \<longrightarrow>
      split_by_delimiter str d =
        Inr (takeWhile (\<lambda>x. \<not> is_space x) (dropWhile is_space str)))"
proof (intro conjI impI)
  assume "d = No"
  then show "split_by_delimiter str d = Inr str" by simp
next
  assume d: "d \<noteq> No \<and> d \<noteq> Space"
  show seg: "split_by_delimiter str d = Inr (spec_first_segment str d)"
    using d by (cases d) (simp_all add: index0_split_sep spec_first_segment_def)
  show "\<forall>c. delimiter_char d = Some c \<and> c \<notin> set str \<longrightarrow>
          split_by_delimiter str d = Inr str"
  proof (intro allI impI)
    fix c
    assume c: "delimiter_char d = Some c \<and> c \<notin> set str"
    then have "takeWhile (\<lambda>x. x \<noteq> c) str = str"
      by (auto intro: takeWhile_eq_all_conv [THEN iffD2])
    with c seg show "split_by_delimiter str d = Inr str"
      by (simp add: spec_first_segment_def)
  qed
next
  assume s: "d = Space \<and> (\<exists>x\<in>set str. \<not> is_space x)"
  then obtain rest where
    "split_ws str = takeWhile (\<lambda>x. \<not> is_space x) (dropWhile is_space str) # rest"
    using split_ws_from_skip [of str] by (auto simp: split_ws_def)
  with s show "split_by_delimiter str d =
      Inr (takeWhile (\<lambda>x. \<not> is_space x) (dropWhile is_space str))"
    by (simp add: index0_def)
qed

theorem split_by_delimiter_first_segment_witness:
  "split_by_delimiter ''report_2024_v1'' Underscore = Inr ''report'' \<and>
   split_by_delimiter ''report'' Underscore = Inr ''report'' \<and>
   split_by_delimiter ''a b_c'' No = Inr ''a b_c'' \<and>
   split_by_delimiter ''  plan 7'' Space = Inr ''plan''"
proof -
  have sp: "\<exists>x\<in>set ''  plan 7''. \<not> is_space x"
    by (simp add: is_space_def)
  show ?thesis
    using split_by_delimiter_first_segment [of Underscore "''report_2024_v1''"]
      split_by_delimiter_first_segment [of Underscore "''report''"]
      split_by_delimiter_first_segment [of No "''a b_c''"]
      split_by_delimiter_first_segment [of Space "''  plan 7''"] sp
    by (simp add: spec_first_segment_def is_space_def)
qed

text \<open>
  The claim as written fails on the \<open>Space\<close> variant: a leading space makes the
  specified segment empty while the code returns the first word, and on a text without
  any word the code raises \<^verbatim>\<open>IndexError\<close> where the specification returns the text.
\<close>

theorem split_by_delimiter_space_counterexample:
  "split_by_delimiter '' a'' Space = Inr ''a'' \<and>
   spec_first_segment '' a'' Space = '''' \<and>
   split_by_delimiter '''' Space = Inl IndexError \<and>
   spec_first_segment '''' Space = ''''"
  by (simp add: split_ws_def index0_def is_space_def spec_first_segment_def)

section \<open>Properties of the stamping layout\<close>

lemma texts_of_append: "texts_of a (xs @ ys) = texts_of a xs @ texts_of a ys"
  by (induction a xs rule: texts_of.induct) auto

lemma texts_of_line [simp]:
  "texts_of a (header_line r p w # ops) = texts_of a ops"
  "texts_of a (footer_line r p w # ops) = texts_of a ops"
  by (simp_all add: header_line_def footer_line_def)

lemmas world_simps =
  exists_def emit_def logs_def open_doc_def save_def makedirs_def finally_close_def
  finally_close2_def finally_close_grid_def basename_def splitext_root_def
  split_ws_def split_sep_def index0_def is_space_def output_path_def

lemmas example_simps =
  example_world_def numbered_world_def example_page_def other_page_def default_config_def
  collapse_config_def







text \<open>
  Claim C1, on the specification's example. A one-page document of 200 by 300 is stamped
  with a header of 150 and a footer of 160, the original resized: the content region has
  height -10. The saved output has two pages: the empty page that the iteration created
  before the collapse test, and after it the copy of the original page.
\<close>

theorem collapse_emits_extra_page:
  "rect_height (content_rect collapse_config 200 300) = -10 \<and>
   files (header_and_pagenum_to_pdf ''/in/a.pdf'' ''/out/b.pdf'' True collapse_config
            example_world) ''/out/b.pdf'' =
     Some (Pdf [new_page 200 300, example_page])"
  by (simp add: header_and_pagenum_to_pdf_def header_and_pagenum_to_pdf_page_def Let_def
      world_simps example_simps content_rect_def rect_height_def remove_rotation_def)

text \<open>
  \<^verbatim>\<open>header_to_pdf\<close> has no collapse test: with a header as high as the page it calls
  \<^verbatim>\<open>show_pdf_page\<close> with a region of height 0 and copies nothing in its place.
\<close>

lemma header_to_pdf_no_collapse_check:
  "header_to_pdf_page (default_config\<lparr>header_height := 300, draw_content_border := False\<rparr>)
     ''a'' 0 example_page =
   ([], Inr [draw [ShowPdfPage (Rect 0 300 200 300) 0,
                   InsertTextbox (Rect 10 20 180 300) ''a'' AlignRight] (new_page 200 300)])"
  by (simp add: header_to_pdf_page_def Let_def example_simps h_content_rect_def
      h_header_actual_rect_def)

subsection \<open>Page numbers\<close>

lemma pagenum_page_texts:
  "\<exists>pg. pagenum_to_pdf_page cfg tp i p = ([], Inr [pg]) \<and>
        map snd (texts_of AlignCenter (content pg)) =
          [spec_pagenum_text (show_total_pages cfg) i tp]"
  by (simp add: pagenum_to_pdf_page_def Let_def draw_def new_page_def
      spec_pagenum_text_def texts_of_append)

lemma for_pages_pagenum:
  "\<exists>out. for_pages (pagenum_to_pdf_page cfg tp) k ps = ([], Inr out) \<and>
         length out = length ps \<and>
         (\<forall>i<length ps. map snd (texts_of AlignCenter (content (out ! i))) =
            [spec_pagenum_text (show_total_pages cfg) (k + i) tp])"
proof (induction ps arbitrary: k)
  case Nil
  then show ?case by simp
next
  case (Cons p ps)
  obtain pg where pg: "pagenum_to_pdf_page cfg tp k (remove_rotation p) = ([], Inr [pg])"
    and t: "map snd (texts_of AlignCenter (content pg)) =
          [spec_pagenum_text (show_total_pages cfg) k tp]"
    using pagenum_page_texts [of cfg tp k "remove_rotation p"] by auto
  obtain out where out: "for_pages (pagenum_to_pdf_page cfg tp) (Suc k) ps = ([], Inr out)"
    and len: "length out = length ps"
    and nums: "\<forall>i<length ps. map snd (texts_of AlignCenter (content (out ! i))) =
            [spec_pagenum_text (show_total_pages cfg) (Suc k + i) tp]"
    using Cons.IH [of "Suc k"] by blast
  have "for_pages (pagenum_to_pdf_page cfg tp) k (p # ps) = ([], Inr (pg # out))"
    by (simp add: pg out)
  moreover have "length (pg # out) = length (p # ps)"
    by (simp add: len)
  moreover have "\<forall>i<length (p # ps). map snd (texts_of AlignCenter (content ((pg # out) ! i))) =
            [spec_pagenum_text (show_total_pages cfg) (k + i) tp]"
  proof (intro allI impI)
    fix i assume "i < length (p # ps)"
    then show "map snd (texts_of AlignCenter (content ((pg # out) ! i))) =
            [spec_pagenum_text (show_total_pages cfg) (k + i) tp]"
      using t nums by (cases i) simp_all
  qed
  ultimately show ?case by blast
qed

lemma header_and_pagenum_center:
  "stamped_texts AlignCenter (header_and_pagenum_to_pdf_page cfg label tp i p) =
     (if write_pagenum cfg \<and> 0 < rect_height (content_rect cfg (page_width p) (page_height p))
        \<and> \<not> (draw_content_border cfg \<and> resize_original cfg \<and> page_height p = 0)
      then [(inset (actual_footer_rect cfg (page_width p) (page_height p)) (footer_padding cfg),
             '' '' @ spec_pagenum_text (show_total_pages cfg) i tp)]
      else [])"
  by (simp add: stamped_texts_def header_and_pagenum_to_pdf_page_def Let_def draw_def new_page_def
      spec_pagenum_text_def texts_of_append actual_shown_rect_def)

text \<open>
  What the two operations stamp. In \<^verbatim>\<open>pagenum_to_pdf\<close> the one centred text on the output
  page at index \<open>i\<close> is exactly the decimal \<open>i + 1\<close>, followed by \<open>" / "\<close> and the page count
  when the total is shown. In \<^verbatim>\<open>header_and_pagenum_to_pdf\<close>, when page numbers are written
  and the page does not collapse, the text is the same string preceded by one space.
\<close>

lemma page_number_texts:
  "(i < length ps \<longrightarrow>
      (\<exists>out. for_pages (pagenum_to_pdf_page cfg (length ps)) 0 ps = ([], Inr out) \<and>
         length out = length ps \<and>
         map snd (texts_of AlignCenter (content (out ! i))) =
           [spec_pagenum_text (show_total_pages cfg) i (length ps)])) \<and>
   (write_pagenum cfg \<and> 0 < rect_height (content_rect cfg (page_width p) (page_height p)) \<and>
    0 < page_height p \<longrightarrow>
      map snd (stamped_texts AlignCenter
                 (header_and_pagenum_to_pdf_page cfg label tp i p)) =
        ['' '' @ spec_pagenum_text (show_total_pages cfg) i tp])"
proof (intro conjI impI)
  assume i: "i < length ps"
  from for_pages_pagenum [of cfg "length ps" 0 ps] obtain out
    where "for_pages (pagenum_to_pdf_page cfg (length ps)) 0 ps = ([], Inr out)"
      and "length out = length ps"
      and "\<forall>j<length ps. map snd (texts_of AlignCenter (content (out ! j))) =
            [spec_pagenum_text (show_total_pages cfg) (0 + j) (length ps)]"
    by blast
  with i show "\<exists>out. for_pages (pagenum_to_pdf_page cfg (length ps)) 0 ps = ([], Inr out) \<and>
         length out = length ps \<and>
         map snd (texts_of AlignCenter (content (out ! i))) =
           [spec_pagenum_text (show_total_pages cfg) i (length ps)]"
    by auto
next
  assume "write_pagenum cfg \<and>
    0 < rect_height (content_rect cfg (page_width p) (page_height p)) \<and> 0 < page_height p"
  then show "map snd (stamped_texts AlignCenter
                 (header_and_pagenum_to_pdf_page cfg label tp i p)) =
        ['' '' @ spec_pagenum_text (show_total_pages cfg) i tp]"
    by (simp add: header_and_pagenum_center)
qed

lemma page_number_texts_example:
  "(\<exists>out. for_pages (pagenum_to_pdf_page (default_config\<lparr>show_total_pages := True\<rparr>)
              (length [example_page, other_page])) 0 [example_page, other_page] = ([], Inr out) \<and>
      length out = length [example_page, other_page] \<and>
      map snd (texts_of AlignCenter (content (out ! 1))) = [''2 / 2'']) \<and>
   map snd (stamped_texts AlignCenter
              (header_and_pagenum_to_pdf_page (default_config\<lparr>show_total_pages := True\<rparr>)
                 ''a'' 12 9 other_page)) = ['' 10 / 12'']"
  using page_number_texts [of 1 "[example_page, other_page]"
      "default_config\<lparr>show_total_pages := True\<rparr>" other_page "''a''" 12]
    page_number_texts [of 9 "[]"
      "default_config\<lparr>show_total_pages := True\<rparr>" other_page "''a''" 12]
  by (simp add: spec_pagenum_text_def str_of_nat.simps default_config_def other_page_def
      content_rect_def rect_height_def)

text \<open>
  Claim C9, at a failing input. With the default arguments \<^verbatim>\<open>header_and_pagenum_to_pdf\<close>
  stamps a space followed by \<open>1\<close> on the first page of a three-page document, and a space
  followed by \<open>1 / 3\<close> when the total is shown, where the claim says \<open>1\<close> and \<open>1 / 3\<close> with no
  other character; \<^verbatim>\<open>pagenum_to_pdf\<close> stamps \<open>1\<close> and \<open>1 / 3\<close> on the same page.
\<close>

theorem pagenum_text_has_leading_space:
  "map snd (stamped_texts AlignCenter
              (header_and_pagenum_to_pdf_page default_config ''a'' 3 0 example_page)) = ['' 1''] \<and>
   map snd (stamped_texts AlignCenter
              (header_and_pagenum_to_pdf_page (default_config\<lparr>show_total_pages := True\<rparr>)
                 ''a'' 3 0 example_page)) = ['' 1 / 3''] \<and>
   spec_pagenum_text False 0 3 = ''1'' \<and>
   spec_pagenum_text True 0 3 = ''1 / 3'' \<and>
   map snd (stamped_texts AlignCenter (pagenum_to_pdf_page default_config 3 0 example_page)) =
     [''1''] \<and>
   map snd (stamped_texts AlignCenter
              (pagenum_to_pdf_page (default_config\<lparr>show_total_pages := True\<rparr>) 3 0
                 example_page)) = [''1 / 3'']"
proof -
  have "map snd (stamped_texts AlignCenter
              (header_and_pagenum_to_pdf_page default_config ''a'' 3 0 example_page)) = ['' 1'']"
    "map snd (stamped_texts AlignCenter
              (header_and_pagenum_to_pdf_page (default_config\<lparr>show_total_pages := True\<rparr>)
                 ''a'' 3 0 example_page)) = ['' 1 / 3'']"
    by (simp_all add: header_and_pagenum_center spec_pagenum_text_def str_of_nat.simps
        default_config_def example_page_def content_rect_def rect_height_def)
  moreover have "spec_pagenum_text False 0 3 = ''1''" "spec_pagenum_text True 0 3 = ''1 / 3''"
    by (simp_all add: spec_pagenum_text_def str_of_nat.simps)
  moreover have
    "map snd (stamped_texts AlignCenter (pagenum_to_pdf_page default_config 3 0 example_page)) =
       [''1'']"
    "map snd (stamped_texts AlignCenter
              (pagenum_to_pdf_page (default_config\<lparr>show_total_pages := True\<rparr>) 3 0
                 example_page)) = [''1 / 3'']"
    by (simp_all add: stamped_texts_def pagenum_to_pdf_page_def Let_def draw_def new_page_def
        texts_of_append str_of_nat.simps default_config_def)
  ultimately show ?thesis by blast
qed

subsection \<open>The header label and \<^verbatim>\<open>stamp_only_firstpage\<close>\<close>





lemma page_height_remove_rotation [simp]: "page_height (remove_rotation p) = page_height p"
  by (simp add: remove_rotation_def)





section \<open>Properties of the redaction engine\<close>

lemma add_redact_annots_fst: "fst (add_redact_annots masks) = passing_masks masks"
  by (induction masks rule: add_redact_annots.induct)
     (auto simp: passing_masks_def mask_passes_def is_valid_def List.map_filter_simps
           split: prod.splits)

lemma add_redact_annots_snd:
  "snd (add_redact_annots masks) =
     replicate (length (filter (\<lambda>m. \<not> mask_passes m) masks)) LogInvalidMask"
  by (induction masks rule: add_redact_annots.induct)
     (auto simp: mask_passes_def is_valid_def split: prod.splits)

lemma passing_masks_set:
  "r \<in> set (passing_masks masks) \<longleftrightarrow> IsRect r \<in> set masks \<and> x0 r \<le> x1 r \<and> y0 r \<le> y1 r"
  by (induction masks)
     (auto simp: passing_masks_def mask_passes_def List.map_filter_simps split: mask_arg.splits)

lemma passing_masks_none:
  "\<forall>m\<in>set masks. \<not> mask_passes m \<Longrightarrow> passing_masks masks = []"
  by (induction masks)
     (auto simp: passing_masks_def mask_passes_def List.map_filter_simps split: mask_arg.splits)

lemma draw_Nil [simp]: "draw [] p = p"
  by (simp add: draw_def)

lemma masking_page_eq:
  "masking_to_pdf_page masks pg =
     (snd (add_redact_annots masks),
      draw (map Redact (passing_masks masks)) (remove_rotation pg))"
  using add_redact_annots_fst [of masks]
  by (cases "add_redact_annots masks") (simp add: masking_to_pdf_page_def apply_redactions_def)

lemma masking_pages_snd:
  "snd (masking_pages masks doc) =
     map (\<lambda>pg. draw (map Redact (passing_masks masks)) (remove_rotation pg)) doc"
proof (induction doc)
  case Nil
  then show ?case by simp
next
  case (Cons p ps)
  then show ?case
    by (cases "masking_pages masks ps") (simp add: masking_page_eq)
qed

lemma masking_pages_fst:
  "fst (masking_pages masks doc) =
     concat (map (\<lambda>pg. replicate (length (filter (\<lambda>m. \<not> mask_passes m) masks))
                          LogInvalidMask) doc)"
proof (induction doc)
  case Nil
  then show ?case by simp
next
  case (Cons p ps)
  then show ?case
    by (cases "masking_pages masks ps") (simp add: masking_page_eq add_redact_annots_snd)
qed

lemma masking_to_pdf_saves:
  assumes "inp \<noteq> outp" "overwrite \<or> \<not> exists w outp" "files w inp = Some (Pdf doc)"
  shows "files (masking_to_pdf inp outp masks overwrite w) outp =
           Some (Pdf (snd (masking_pages masks doc)))"
    and "trace (masking_to_pdf inp outp masks overwrite w) =
           trace w @ [Open Doc] @ map Log (fst (masking_pages masks doc)) @
           [Save outp, Close Doc]"
  using assms
  by (auto simp: masking_to_pdf_def exists_def open_doc_def finally_close_def save_def
      emit_def logs_def split: prod.splits)

text \<open>
  Claim C4, as amended. On every page the redactions registered are exactly the requested
  masks that are rectangles with \<open>x1 \<ge> x0\<close> and \<open>y1 \<ge> y0\<close> (the library's validity, which a
  rectangle of zero area passes), in the order requested; every other mask is logged and
  skipped, and the passing ones are still applied. When every mask fails the test the
  page is left as it was, but for the rotation removed before masking. Whenever the
  guards pass and the input opens, the document is saved with these pages, and the log
  holds one entry for every failing mask on every page.
\<close>

theorem masking_registers_valid_masks:
  "(r \<in> set (fst (add_redact_annots masks)) \<longleftrightarrow>
      IsRect r \<in> set masks \<and> x0 r \<le> x1 r \<and> y0 r \<le> y1 r) \<and>
   fst (add_redact_annots masks) = passing_masks masks \<and>
   snd (add_redact_annots masks) =
     replicate (length (filter (\<lambda>m. \<not> mask_passes m) masks)) LogInvalidMask \<and>
   masking_to_pdf_page masks pg =
     (snd (add_redact_annots masks),
      draw (map Redact (passing_masks masks)) (remove_rotation pg)) \<and>
   ((\<forall>m\<in>set masks. \<not> mask_passes m) \<longrightarrow>
      masking_to_pdf_page masks pg =
        (replicate (length masks) LogInvalidMask, remove_rotation pg) \<and>
      (rotation pg = 0 \<longrightarrow> snd (masking_to_pdf_page masks pg) = pg)) \<and>
   (inp \<noteq> outp \<and> (overwrite \<or> \<not> exists w outp) \<and> files w inp = Some (Pdf doc) \<longrightarrow>
      files (masking_to_pdf inp outp masks overwrite w) outp =
        Some (Pdf (map (\<lambda>pg. draw (map Redact (passing_masks masks)) (remove_rotation pg))
                     doc)) \<and>
      trace (masking_to_pdf inp outp masks overwrite w) =
        trace w @ [Open Doc] @
        map Log (concat (map (\<lambda>pg. replicate (length (filter (\<lambda>m. \<not> mask_passes m) masks))
                                       LogInvalidMask) doc)) @
        [Save outp, Close Doc])"
proof (intro conjI impI)
  show "r \<in> set (fst (add_redact_annots masks)) \<longleftrightarrow>
      IsRect r \<in> set masks \<and> x0 r \<le> x1 r \<and> y0 r \<le> y1 r"
    by (simp add: add_redact_annots_fst passing_masks_set)
  show "fst (add_redact_annots masks) = passing_masks masks"
    by (rule add_redact_annots_fst)
  show "snd (add_redact_annots masks) =
     replicate (length (filter (\<lambda>m. \<not> mask_passes m) masks)) LogInvalidMask"
    by (rule add_redact_annots_snd)
  show "masking_to_pdf_page masks pg =
     (snd (add_redact_annots masks),
      draw (map Redact (passing_masks masks)) (remove_rotation pg))"
    by (rule masking_page_eq)
next
  assume inv: "\<forall>m\<in>set masks. \<not> mask_passes m"
  then have "filter (\<lambda>m. \<not> mask_passes m) masks = masks"
    by simp
  with inv show all: "masking_to_pdf_page masks pg =
        (replicate (length masks) LogInvalidMask, remove_rotation pg)"
    by (simp add: masking_page_eq add_redact_annots_snd passing_masks_none)
  assume "rotation pg = 0"
  then show "snd (masking_to_pdf_page masks pg) = pg"
    by (simp add: all remove_rotation_def)
next
  assume g: "inp \<noteq> outp \<and> (overwrite \<or> \<not> exists w outp) \<and> files w inp = Some (Pdf doc)"
  then show "files (masking_to_pdf inp outp masks overwrite w) outp =
        Some (Pdf (map (\<lambda>pg. draw (map Redact (passing_masks masks)) (remove_rotation pg))
                     doc))"
    using masking_to_pdf_saves(1) [of inp outp overwrite w doc masks]
    by (simp add: masking_pages_snd)
  from g show "trace (masking_to_pdf inp outp masks overwrite w) =
        trace w @ [Open Doc] @
        map Log (concat (map (\<lambda>pg. replicate (length (filter (\<lambda>m. \<not> mask_passes m) masks))
                                       LogInvalidMask) doc)) @
        [Save outp, Close Doc]"
    using masking_to_pdf_saves(2) [of inp outp overwrite w doc masks]
    by (simp add: masking_pages_fst)
qed

theorem masking_registers_valid_masks_witness:
  "masking_to_pdf_page [IsRect (Rect 10 10 50 20), IsRect (Rect 60 30 30 60), NotRect]
     example_page =
     ([LogInvalidMask, LogInvalidMask],
      example_page\<lparr>content := [Content 1, Redact (Rect 10 10 50 20)]\<rparr>) \<and>
   masking_to_pdf_page [IsRect (Rect 60 30 30 60), NotRect] example_page =
     ([LogInvalidMask, LogInvalidMask], example_page) \<and>
   files (masking_to_pdf ''/in/a.pdf'' ''/out/m.pdf'' [IsRect (Rect 60 30 30 60), NotRect] False
            example_world) ''/out/m.pdf'' = Some (Pdf [example_page]) \<and>
   trace (masking_to_pdf ''/in/a.pdf'' ''/out/m.pdf'' [IsRect (Rect 60 30 30 60), NotRect] False
            example_world) =
     [Open Doc, Log LogInvalidMask, Log LogInvalidMask, Save ''/out/m.pdf'', Close Doc]"
proof -
  have inv: "\<forall>m\<in>set [IsRect (Rect 60 30 30 60), NotRect]. \<not> mask_passes m"
    by (simp add: mask_passes_def)
  have guards: "''/in/a.pdf'' \<noteq> ''/out/m.pdf'' \<and>
      (False \<or> \<not> exists example_world ''/out/m.pdf'') \<and>
      files example_world ''/in/a.pdf'' = Some (Pdf [example_page])"
    by (simp add: example_world_def exists_def)
  have nolog: "trace example_world = []"
    by (simp add: example_world_def)
  show ?thesis
    using masking_registers_valid_masks
        [of "Rect 10 10 50 20" "[IsRect (Rect 10 10 50 20), IsRect (Rect 60 30 30 60), NotRect]"
           example_page "''/in/a.pdf''" "''/out/m.pdf''" False example_world "[example_page]"]
      masking_registers_valid_masks
        [of "Rect 10 10 50 20" "[IsRect (Rect 60 30 30 60), NotRect]" example_page
           "''/in/a.pdf''" "''/out/m.pdf''" False example_world "[example_page]"] inv guards
    by (simp add: passing_masks_def mask_passes_def List.map_filter_simps is_valid_def
        example_page_def remove_rotation_def draw_def nolog)
qed

text \<open>
  The claim as written fails on a mask of zero area: \<open>(30, 30, 30, 60)\<close> does not satisfy
  \<open>x1 > x0\<close>, yet it passes the library's validity test, is registered without a log
  entry, and is applied to the page.
\<close>

theorem masking_zero_area_counterexample:
  "\<not> spec_mask_ok (IsRect (Rect 30 30 30 60)) \<and>
   spec_registered [IsRect (Rect 30 30 30 60)] = [] \<and>
   add_redact_annots [IsRect (Rect 30 30 30 60)] = ([Rect 30 30 30 60], []) \<and>
   masking_to_pdf_page [IsRect (Rect 30 30 30 60)] example_page =
     ([], example_page\<lparr>content := [Content 1, Redact (Rect 30 30 30 60)]\<rparr>)"
  by (simp add: spec_mask_ok_def spec_registered_def List.map_filter_simps is_valid_def
      masking_to_pdf_page_def apply_redactions_def example_page_def remove_rotation_def draw_def)

section \<open>Properties of the guards, the sessions and the folder operations\<close>

text \<open>
  Claim C5, at a failing input. \<^verbatim>\<open>/out/a.pdf\<close> exists and \<^verbatim>\<open>overwrite\<close> is false.
  \<^verbatim>\<open>header_to_pdf\<close> logs at fatal severity and goes on: it opens the input, saves over the
  existing output and closes. \<^verbatim>\<open>masking_to_pdf\<close>, whose guard returns, leaves the world as
  it was but for the log entry. The guards of \<^verbatim>\<open>pagenum_to_pdf\<close>,
  \<^verbatim>\<open>header_and_pagenum_to_pdf\<close> and \<^verbatim>\<open>concat_pdf\<close> go on in the same way.
\<close>

theorem overwrite_guard_does_not_return:
  "exists example_world ''/out/a.pdf'' \<and>
   files example_world ''/out/a.pdf'' = Some (Pdf [other_page]) \<and>
   trace (header_to_pdf ''/in/a.pdf'' ''/out/a.pdf'' False default_config example_world) =
     [Log LogFatal, Open SourceDoc, Open OutputDoc, Save ''/out/a.pdf'',
      Close OutputDoc, Close SourceDoc] \<and>
   files (header_to_pdf ''/in/a.pdf'' ''/out/a.pdf'' False default_config example_world)
     ''/out/a.pdf'' \<noteq> Some (Pdf [other_page]) \<and>
   masking_to_pdf ''/in/a.pdf'' ''/out/a.pdf'' [] False example_world =
     example_world\<lparr>trace := [Log LogFatal]\<rparr> \<and>
   saved_paths (trace (pagenum_to_pdf ''/in/a.pdf'' ''/out/a.pdf'' False default_config
                         example_world)) = [''/out/a.pdf''] \<and>
   saved_paths (trace (header_and_pagenum_to_pdf ''/in/a.pdf'' ''/out/a.pdf'' False
                         default_config example_world)) = [''/out/a.pdf''] \<and>
   saved_paths (trace (concat_pdf (\<lambda>paths. paths) ''/in'' ''/out/a.pdf'' False example_world)) =
     [''/out/a.pdf'']"
  by (simp add: header_to_pdf_def header_to_pdf_page_def masking_to_pdf_def pagenum_to_pdf_def
      pagenum_to_pdf_page_def header_and_pagenum_to_pdf_def header_and_pagenum_to_pdf_page_def
      concat_pdf_def Let_def
      world_simps example_simps h_content_rect_def h_header_actual_rect_def remove_rotation_def
      content_rect_def actual_shown_rect_def rect_height_def rect_width_def create_rect_def
      draw_def new_page_def)

subsection \<open>Document sessions\<close>

lemma closes_emit:
  "closes h (trace (emit e w)) = closes h (trace w) + (if e = Close h then 1 else 0)"
  by (simp add: closes_def emit_def)

lemma closes_save: "closes h (trace (save path pages w)) = closes h (trace w)"
  by (simp add: closes_def emit_def save_def)

text \<open>
  Whatever its arguments, \<^verbatim>\<open>grid_to_pdf\<close> never closes a session: its release tests
  \<^verbatim>\<open>doc.is_closed\<close> where the other operations test \<^verbatim>\<open>not doc.is_closed\<close>.
\<close>

lemma grid_to_pdf_never_closes:
  "closes Doc (trace (grid_to_pdf inp outp grid_interval grid_width overwrite w)) =
     closes Doc (trace w)"
  by (simp add: grid_to_pdf_def finally_close_grid_def closes_emit closes_save
      split: sum.splits)

lemma grid_pass_example:
  "grid_pass 200 300 100 =
     Inr [Rect 0 0 100 100, Rect 100 0 200 100, Rect 0 100 100 200,
          Rect 100 100 200 200, Rect 0 200 100 300, Rect 100 200 200 300]"
  "grid_pass 200 300 500 = Inr [Rect 0 0 200 300]"
  "grid_pass 200 300 1000 = Inr [Rect 0 0 200 300]"
  by (simp_all add: grid_pass_def py_range_def py_int_def grid_cell_def drawable_def
      range_up.simps)

lemma grid_pages_example: "\<exists>pages. grid_pages 100 0.1 [example_page] = Inr pages"
proof -
  have "remove_rotation example_page = example_page"
    by (simp add: remove_rotation_def example_page_def)
  moreover have "\<exists>pg. grid_to_pdf_page 100 0.1 example_page = Inr pg"
    by (simp add: grid_to_pdf_page_def Let_def grid_pass_example example_page_def)
  ultimately show ?thesis by auto
qed

text \<open>
  Claim C7, at a failing input. \<^verbatim>\<open>grid_to_pdf\<close> on an existing document opens one session,
  saves the output and returns without closing the session; \<^verbatim>\<open>masking_to_pdf\<close> on the same
  input opens one session and closes it once.
\<close>

theorem grid_session_never_closed:
  "opens Doc (trace (grid_to_pdf ''/in/a.pdf'' ''/out/g.pdf'' 100 0.1 True example_world)) = 1 \<and>
   closes Doc (trace (grid_to_pdf ''/in/a.pdf'' ''/out/g.pdf'' 100 0.1 True example_world)) = 0 \<and>
   saved_paths (trace (grid_to_pdf ''/in/a.pdf'' ''/out/g.pdf'' 100 0.1 True example_world)) =
     [''/out/g.pdf''] \<and>
   opens Doc (trace (masking_to_pdf ''/in/a.pdf'' ''/out/m.pdf'' [] True example_world)) = 1 \<and>
   closes Doc (trace (masking_to_pdf ''/in/a.pdf'' ''/out/m.pdf'' [] True example_world)) = 1"
proof -
  obtain pages where pages: "grid_pages 100 0.1 [example_page] = Inr pages"
    using grid_pages_example ..
  show ?thesis
    by (simp add: pages grid_to_pdf_def masking_to_pdf_def masking_to_pdf_page_def
        apply_redactions_def world_simps example_world_def opens_def closes_def
        del: grid_pages.simps)
qed

subsection \<open>Folder-wide operations\<close>

lemma for_files_foldl:
  "for_files operation output_folder listing w =
     foldl (\<lambda>w' f. operation f (output_folder @ ''/'' @ basename f) w') w listing"
  by (induction listing arbitrary: w) (simp_all add: output_path_def)

lemma glob_pdf_makedirs [simp]: "glob_pdf (makedirs path w) = glob_pdf w"
  by (simp add: makedirs_def emit_def)

lemma in_folder_foldl:
  assumes "input_folder \<noteq> output_folder" and "exists w input_folder"
  shows "in_folder operation input_folder output_folder w =
           foldl (\<lambda>w' f. operation f (output_folder @ ''/'' @ basename f) w')
             (if \<not> exists w output_folder then makedirs output_folder w else w)
             (glob_pdf w input_folder)"
  using assms by (simp add: in_folder_def for_files_foldl Let_def)

lemma files_emit [simp]: "files (emit e w) = files w"
  by (simp add: emit_def)

lemma concat_files_all_open:
  "\<forall>f\<in>set fs. \<exists>ps. files w f = Some (Pdf ps) \<Longrightarrow>
   \<exists>w'. concat_files fs k acc w = (w', k + length fs, Inr (acc @ concat (map (pages_at w) fs))) \<and>
        files w' = files w"
proof (induction fs arbitrary: k acc w)
  case Nil
  then show ?case by simp
next
  case (Cons f fs)
  from Cons.prems obtain ps where ps: "files w f = Some (Pdf ps)" by auto
  let ?w = "emit (Close (TmpDoc k)) (emit (Open (TmpDoc k)) w)"
  have "\<forall>f\<in>set fs. \<exists>ps. files ?w f = Some (Pdf ps)" using Cons.prems by simp
  from Cons.IH [OF this, of "Suc k" "acc @ ps"] ps show ?case
    by (simp add: open_doc_def pages_at_def)
qed

lemma concat_pdf_sorted_order:
  assumes "exists w input_folder"
    and "\<forall>f\<in>set (natsorted (glob_pdf w input_folder)). \<exists>ps. files w f = Some (Pdf ps)"
  shows "files (concat_pdf natsorted input_folder outp overwrite w) outp =
           Some (Pdf (concat (map (pages_at w) (natsorted (glob_pdf w input_folder)))))"
proof -
  define w2 where
    "w2 = emit (Open OutputDoc)
            (if \<not> overwrite \<and> exists w outp then emit (Log LogFatal) w else w)"
  have f2: "files w2 = files w" and g2: "glob_pdf w2 = glob_pdf w"
    by (simp_all add: w2_def emit_def)
  have p2: "pages_at w2 = pages_at w"
    by (simp add: pages_at_def fun_eq_iff f2)
  have "\<forall>f\<in>set (natsorted (glob_pdf w input_folder)). \<exists>ps. files w2 f = Some (Pdf ps)"
    using assms(2) by (simp only: f2)
  from concat_files_all_open [OF this, of 0 "[]"] obtain w3 where
    run: "concat_files (natsorted (glob_pdf w input_folder)) 0 [] w2 =
       (w3, length (natsorted (glob_pdf w input_folder)),
        Inr (concat (map (pages_at w) (natsorted (glob_pdf w input_folder)))))"
    by (auto simp: p2)
  have "concat_pdf natsorted input_folder outp overwrite w =
      (case concat_files (natsorted (glob_pdf w2 input_folder)) 0 [] w2 of
         (w3, k, Inl e) \<Rightarrow>
           finally_close OutputDoc IsOpen
             (finally_close (TmpDoc (k - 1)) (if k = 0 then Unbound else IsClosed)
                (emit (Log (LogError e)) w3))
       | (w3, k, Inr output_doc) \<Rightarrow>
           finally_close OutputDoc IsClosed
             (finally_close (TmpDoc (k - 1)) (if k = 0 then Unbound else IsClosed)
                (emit (Close OutputDoc) (save outp output_doc w3))))"
    using assms(1) unfolding concat_pdf_def w2_def Let_def by simp
  then show ?thesis
    by (simp add: g2 run finally_close_def save_def emit_def)
qed

text \<open>
  Claim C6, as amended. Once its two guards pass, every folder-wide operation creates the
  output folder when absent and then runs the single-document operation on the paths of
  the directory listing, in the order of the listing, each with the output path
  \<^verbatim>\<open>output_folder + "/" + basename(input)\<close>; no sort is applied. \<^verbatim>\<open>concat_pdf\<close> appends the
  documents in the order \<^verbatim>\<open>natsorted\<close> gives the listing.
\<close>

theorem folder_operations_follow_listing:
  "input_folder \<noteq> output_folder \<and> exists w input_folder \<longrightarrow>
     masking_to_pdf_in_folder input_folder output_folder masks overwrite w =
       foldl (\<lambda>w' f. masking_to_pdf f (output_folder @ ''/'' @ basename f) masks overwrite w')
         (if \<not> exists w output_folder then makedirs output_folder w else w)
         (glob_pdf w input_folder) \<and>
     header_to_pdf_in_folder input_folder output_folder cfg w =
       foldl (\<lambda>w' f. header_to_pdf f (output_folder @ ''/'' @ basename f) True cfg w')
         (if \<not> exists w output_folder then makedirs output_folder w else w)
         (glob_pdf w input_folder) \<and>
     header_and_pagenum_to_pdf_in_folder input_folder output_folder overwrite cfg w =
       foldl (\<lambda>w' f. header_and_pagenum_to_pdf f (output_folder @ ''/'' @ basename f)
                        overwrite cfg w')
         (if \<not> exists w output_folder then makedirs output_folder w else w)
         (glob_pdf w input_folder) \<and>
     header_and_frame_to_pdf_in_folder input_folder output_folder overwrite cfg w =
       foldl (\<lambda>w' f. header_and_frame_to_pdf f (output_folder @ ''/'' @ basename f)
                        overwrite cfg w')
         (if \<not> exists w output_folder then makedirs output_folder w else w)
         (glob_pdf w input_folder) \<and>
     ((\<forall>f\<in>set (natsorted (glob_pdf w input_folder)). \<exists>ps. files w f = Some (Pdf ps)) \<longrightarrow>
        files (concat_pdf natsorted input_folder outp overwrite w) outp =
          Some (Pdf (concat (map (pages_at w) (natsorted (glob_pdf w input_folder))))))"
  by (simp add: masking_to_pdf_in_folder_def header_to_pdf_in_folder_def
      header_and_pagenum_to_pdf_in_folder_def header_and_frame_to_pdf_in_folder_def
      in_folder_foldl concat_pdf_sorted_order)

theorem folder_operations_follow_listing_witness:
  "header_to_pdf_in_folder ''/in'' ''/out'' default_config numbered_world =
     header_to_pdf ''/in/2.pdf'' ''/out/2.pdf'' True default_config
       (header_to_pdf ''/in/10.pdf'' ''/out/10.pdf'' True default_config
          (makedirs ''/out'' numbered_world)) \<and>
   files (concat_pdf rev ''/in'' ''/out.pdf'' True numbered_world) ''/out.pdf'' =
     Some (Pdf [other_page, example_page])"
proof -
  have guards: "''/in'' \<noteq> ''/out'' \<and> exists numbered_world ''/in''"
    by (simp add: numbered_world_def exists_def)
  have opens: "\<forall>f\<in>set (rev (glob_pdf numbered_world ''/in'')).
      \<exists>ps. files numbered_world f = Some (Pdf ps)"
    by (simp add: numbered_world_def)
  show ?thesis
    using folder_operations_follow_listing [of "''/in''" "''/out''" numbered_world "[]" True
        default_config rev "''/out.pdf''"] guards opens
    by (simp add: numbered_world_def exists_def basename_def pages_at_def)
qed

text \<open>
  The claim as written fails: the listing returns \<^verbatim>\<open>10.pdf\<close> before \<^verbatim>\<open>2.pdf\<close>, and
  \<^verbatim>\<open>header_to_pdf_in_folder\<close> writes \<^verbatim>\<open>/out/10.pdf\<close> before \<^verbatim>\<open>/out/2.pdf\<close>.
\<close>

theorem folder_order_counterexample:
  "glob_pdf numbered_world ''/in'' = [''/in/10.pdf'', ''/in/2.pdf''] \<and>
   saved_paths (trace (header_to_pdf_in_folder ''/in'' ''/out'' default_config numbered_world)) =
     [''/out/10.pdf'', ''/out/2.pdf'']"
  by (simp add: header_to_pdf_in_folder_def in_folder_def header_to_pdf_def
      header_to_pdf_page_def Let_def world_simps example_simps remove_rotation_def
      actual_shown_rect_def)

section \<open>Properties of the grid renderer\<close>

lemma range_up_step:
  "0 < step \<Longrightarrow> i < stop \<Longrightarrow> range_up i stop step = i # range_up (i + step) stop step"
  by (subst range_up.simps) simp

lemma range_up_done: "\<not> (0 < step \<and> i < stop) \<Longrightarrow> range_up i stop step = []"
  by (subst range_up.simps) simp

lemma set_range_up:
  "0 < step \<Longrightarrow> set (range_up i stop step) = {j. i \<le> j \<and> j < stop \<and> step dvd (j - i)}"
proof (induction i stop step rule: range_up.induct)
  case (1 i stop step)
  show ?case
  proof (cases "i < stop")
    case False
    then show ?thesis by (auto simp: range_up_done)
  next
    case True
    have IH: "set (range_up (i + step) stop step) =
        {j. i + step \<le> j \<and> j < stop \<and> step dvd (j - (i + step))}"
      using "1.IH" "1.prems" True by simp
    have "insert i {j. i + step \<le> j \<and> j < stop \<and> step dvd (j - (i + step))} =
        {j. i \<le> j \<and> j < stop \<and> step dvd (j - i)}" (is "?L = ?R")
    proof (intro set_eqI iffI)
      fix j assume "j \<in> ?L"
      then consider "j = i" | "i + step \<le> j" "j < stop" "step dvd (j - (i + step))" by auto
      then show "j \<in> ?R"
      proof cases
        case 1
        with True show ?thesis by simp
      next
        case 2
        from 2(3) obtain k where "j - (i + step) = step * k" ..
        then have "j - i = step * (k + 1)" by (simp add: algebra_simps)
        then have "step dvd (j - i)" by (rule dvdI)
        with 2 "1.prems" show ?thesis by simp
      qed
    next
      fix j assume "j \<in> ?R"
      then have j: "i \<le> j" "j < stop" "step dvd (j - i)" by auto
      show "j \<in> ?L"
      proof (cases "j = i")
        case True
        then show ?thesis by simp
      next
        case False
        with j have pos: "0 < j - i" by simp
        with j(3) have "step \<le> j - i" by (rule zdvd_imp_le)
        moreover from j(3) obtain k where "j - i = step * k" ..
        then have "j - (i + step) = step * (k - 1)" by (simp add: algebra_simps)
        then have "step dvd (j - (i + step))" by (rule dvdI)
        ultimately show ?thesis using j by simp
      qed
    qed
    with IH True "1.prems" show ?thesis by (simp add: range_up_step)
  qed
qed

lemma py_int_of_int [simp]: "py_int (real_of_int n) = n"
  by (simp add: py_int_def)

lemma grid_pass_steps:
  "1 \<le> n \<Longrightarrow>
   grid_pass W H (real_of_int n) =
     Inr (concat (map (\<lambda>y. filter drawable (map (grid_cell W H (real_of_int n) y)
            (range_up 0 (py_int W) n))) (range_up 0 (py_int H) n)))"
  by (simp add: grid_pass_def py_range_def)

lemma grid_pass_cell_iff:
  assumes "1 \<le> n" "grid_pass W H (real_of_int n) = Inr cells"
  shows "c \<in> set cells \<longleftrightarrow>
     (\<exists>y\<in>set (range_up 0 (py_int H) n). \<exists>x\<in>set (range_up 0 (py_int W) n).
        c = grid_cell W H (real_of_int n) y x \<and> drawable c)"
proof -
  from assms have "cells = concat (map (\<lambda>y. filter drawable (map (grid_cell W H (real_of_int n) y)
            (range_up 0 (py_int W) n))) (range_up 0 (py_int H) n))"
    by (simp add: grid_pass_steps)
  then show ?thesis by auto
qed

lemma grid_pass_drawn_positive:
  "grid_pass W H interval = Inr cells \<Longrightarrow> c \<in> set cells \<Longrightarrow>
   x0 c < x1 c \<and> y0 c < y1 c \<and> x1 c \<le> W \<and> y1 c \<le> H"
  by (auto simp: grid_pass_def drawable_def grid_cell_def split: sum.splits)

lemma whole_page_drawable:
  assumes "1 \<le> n" "x \<in> set (range_up 0 Wi n)" "y \<in> set (range_up 0 Hi n)"
  shows "drawable (grid_cell (real_of_int Wi) (real_of_int Hi) (real_of_int n) y x)"
proof -
  from assms have "x < Wi" "y < Hi" by (simp_all add: set_range_up)
  with assms(1) show ?thesis by (simp add: drawable_def grid_cell_def)
qed

lemma aligned_starts:
  assumes "1 \<le> n" "1 \<le> k" "x \<in> set (range_up 0 Wi (n * k))"
  shows "x \<in> set (range_up 0 Wi n)"
proof -
  have "0 < n * k" using assms by simp
  with assms(3) have "0 \<le> x" "x < Wi" "n * k dvd x" by (simp_all add: set_range_up)
  then have "n dvd x" by (metis dvd_mult_left)
  with \<open>0 \<le> x\<close> \<open>x < Wi\<close> assms(1) show ?thesis by (simp add: set_range_up)
qed

lemma aligned_ends:
  assumes "1 \<le> n" "1 \<le> k" "x \<in> set (range_up 0 Wi (n * k))"
  shows "\<exists>x'\<in>set (range_up 0 Wi n).
           min (real_of_int x' + real_of_int n) (real_of_int Wi) =
           min (real_of_int x + real_of_int (n * k)) (real_of_int Wi)"
proof -
  have "0 < n * k" using assms by simp
  with assms(3) have x: "0 \<le> x" "x < Wi" "n * k dvd x" by (simp_all add: set_range_up)
  then have nx: "n dvd x" by (metis dvd_mult_left)
  show ?thesis
  proof (cases "x + n * k \<le> Wi")
    case True
    let ?x' = "x + n * (k - 1)"
    have "n dvd ?x'" using nx by simp
    moreover have "0 \<le> ?x'" using x assms by simp
    moreover have eq: "?x' + n = x + n * k" by (simp add: algebra_simps)
    then have "?x' < Wi" using True assms(1) by linarith
    ultimately have "?x' \<in> set (range_up 0 Wi n)" using assms(1) by (simp add: set_range_up)
    moreover have "real_of_int ?x' + real_of_int n = real_of_int x + real_of_int (n * k)"
      using eq by (metis of_int_add)
    ultimately show ?thesis by metis
  next
    case False
    let ?x' = "((Wi - 1) div n) * n"
    have n: "0 < n" using assms by simp
    have "n dvd ?x'" by simp
    moreover have "0 \<le> ?x'" using x n by (simp add: pos_imp_zdiv_nonneg_iff)
    moreover have dm: "?x' + (Wi - 1) mod n = Wi - 1"
      by (rule div_mult_mod_eq)
    have md: "0 \<le> (Wi - 1) mod n" "(Wi - 1) mod n < n"
      using n by simp_all
    have le: "?x' \<le> Wi - 1"
      using dm md by linarith
    moreover have "Wi - 1 < ?x' + n"
      using dm md by linarith
    ultimately have "?x' \<in> set (range_up 0 Wi n)" "Wi \<le> ?x' + n"
      using n by (simp_all add: set_range_up)
    moreover have "min (real_of_int ?x' + real_of_int n) (real_of_int Wi) = real_of_int Wi"
      using \<open>Wi \<le> ?x' + n\<close> by (metis min.absorb2 of_int_add of_int_le_iff)
    moreover have "min (real_of_int x + real_of_int (n * k)) (real_of_int Wi) = real_of_int Wi"
      using False by (metis min.absorb2 of_int_add of_int_le_iff linorder_le_cases)
    ultimately show ?thesis by metis
  qed
qed


lemma zero_in_range_up:
  assumes "1 \<le> n" "y \<in> set (range_up 0 Hi n)"
  shows "0 \<in> set (range_up 0 Hi n)"
proof -
  from assms have "0 \<le> y" "y < Hi" by (simp_all add: set_range_up)
  with assms(1) show ?thesis by (simp add: set_range_up)
qed

lemma pass_x_bounds_aligned:
  assumes n: "1 \<le> n" and k: "1 \<le> k"
    and fine: "grid_pass (real_of_int Wi) (real_of_int Hi) (real_of_int n) = Inr fine"
    and coarse: "grid_pass (real_of_int Wi) (real_of_int Hi) (real_of_int (n * k)) = Inr coarse"
  shows "x_bounds coarse \<subseteq> x_bounds fine"
proof
  fix b assume "b \<in> x_bounds coarse"
  then obtain c where c: "c \<in> set coarse" and b: "b = x0 c \<or> b = x1 c"
    by (auto simp: x_bounds_def)
  have nk: "1 \<le> n * k" using n k by (metis mult_mono' mult_1 zero_le_one order_trans)
  from c obtain y x where y: "y \<in> set (range_up 0 Hi (n * k))"
    and x: "x \<in> set (range_up 0 Wi (n * k))"
    and cdef: "c = grid_cell (real_of_int Wi) (real_of_int Hi) (real_of_int (n * k)) y x"
    using grid_pass_cell_iff [OF nk coarse, of c] by auto
  have y0: "0 \<in> set (range_up 0 Hi n)"
    using zero_in_range_up [OF n aligned_starts [OF n k y]] .
  have drawn: "grid_cell (real_of_int Wi) (real_of_int Hi) (real_of_int n) 0 x' \<in> set fine"
    if "x' \<in> set (range_up 0 Wi n)" for x'
    using grid_pass_cell_iff [OF n fine] whole_page_drawable [OF n that y0] that y0
    by auto
  from b show "b \<in> x_bounds fine"
  proof
    assume "b = x0 c"
    then have "b = x0 (grid_cell (real_of_int Wi) (real_of_int Hi) (real_of_int n) 0 x)"
      by (simp add: cdef grid_cell_def)
    with drawn [OF aligned_starts [OF n k x]] show ?thesis
      by (auto simp: x_bounds_def)
  next
    assume "b = x1 c"
    moreover obtain x' where x': "x' \<in> set (range_up 0 Wi n)"
      and "min (real_of_int x' + real_of_int n) (real_of_int Wi) =
           min (real_of_int x + real_of_int (n * k)) (real_of_int Wi)"
      using aligned_ends [OF n k x] by auto
    ultimately have "b = x1 (grid_cell (real_of_int Wi) (real_of_int Hi) (real_of_int n) 0 x')"
      by (simp add: cdef grid_cell_def)
    with drawn [OF x'] show ?thesis
      by (auto simp: x_bounds_def)
  qed
qed

lemma pass_y_bounds_aligned:
  assumes n: "1 \<le> n" and k: "1 \<le> k"
    and fine: "grid_pass (real_of_int Wi) (real_of_int Hi) (real_of_int n) = Inr fine"
    and coarse: "grid_pass (real_of_int Wi) (real_of_int Hi) (real_of_int (n * k)) = Inr coarse"
  shows "y_bounds coarse \<subseteq> y_bounds fine"
proof
  fix b assume "b \<in> y_bounds coarse"
  then obtain c where c: "c \<in> set coarse" and b: "b = y0 c \<or> b = y1 c"
    by (auto simp: y_bounds_def)
  have nk: "1 \<le> n * k" using n k by (metis mult_mono' mult_1 zero_le_one order_trans)
  from c obtain y x where y: "y \<in> set (range_up 0 Hi (n * k))"
    and x: "x \<in> set (range_up 0 Wi (n * k))"
    and cdef: "c = grid_cell (real_of_int Wi) (real_of_int Hi) (real_of_int (n * k)) y x"
    using grid_pass_cell_iff [OF nk coarse, of c] by auto
  have x0: "0 \<in> set (range_up 0 Wi n)"
    using zero_in_range_up [OF n aligned_starts [OF n k x]] .
  have drawn: "grid_cell (real_of_int Wi) (real_of_int Hi) (real_of_int n) y' 0 \<in> set fine"
    if "y' \<in> set (range_up 0 Hi n)" for y'
    using grid_pass_cell_iff [OF n fine] whole_page_drawable [OF n x0 that] that x0
    by auto
  from b show "b \<in> y_bounds fine"
  proof
    assume "b = y0 c"
    then have "b = y0 (grid_cell (real_of_int Wi) (real_of_int Hi) (real_of_int n) y 0)"
      by (simp add: cdef grid_cell_def)
    with drawn [OF aligned_starts [OF n k y]] show ?thesis
      by (auto simp: y_bounds_def)
  next
    assume "b = y1 c"
    moreover obtain y' where y': "y' \<in> set (range_up 0 Hi n)"
      and "min (real_of_int y' + real_of_int n) (real_of_int Hi) =
           min (real_of_int y + real_of_int (n * k)) (real_of_int Hi)"
      using aligned_ends [OF n k y] by auto
    ultimately have "b = y1 (grid_cell (real_of_int Wi) (real_of_int Hi) (real_of_int n) y' 0)"
      by (simp add: cdef grid_cell_def)
    with drawn [OF y'] show ?thesis
      by (auto simp: y_bounds_def)
  qed
qed

text \<open>
  On whole numbers the passes align. For a page whose width and height are whole numbers
  and a whole base interval \<open>I\<close> of at least 1, the three passes at intervals \<open>I\<close>, \<open>5I\<close> and
  \<open>10I\<close> all succeed and are committed as three layers with stroke widths \<open>w\<close>, \<open>5w\<close> and
  \<open>10w\<close>; every cell drawn has strictly positive width and height and lies within the page
  edge; and every boundary coordinate of a cell of the \<open>5I\<close> pass (and of the \<open>10I\<close> pass) is
  a boundary coordinate of some cell of the \<open>I\<close> pass.
\<close>

lemma grid_passes_aligned:
  assumes W: "page_width pg \<in> \<int>" and H: "page_height pg \<in> \<int>"
    and I: "grid_interval \<in> \<int>" and pos: "1 \<le> grid_interval"
  shows "\<exists>thin medium thick.
     grid_pass (page_width pg) (page_height pg) grid_interval = Inr thin \<and>
     grid_pass (page_width pg) (page_height pg) (grid_interval * 5) = Inr medium \<and>
     grid_pass (page_width pg) (page_height pg) (grid_interval * 10) = Inr thick \<and>
     grid_to_pdf_page grid_interval grid_width pg =
       Inr (draw [Finish thin grid_width, Finish medium (grid_width * 5),
                  Finish thick (grid_width * 10)] pg) \<and>
     (\<forall>c\<in>set thin \<union> set medium \<union> set thick.
        x0 c < x1 c \<and> y0 c < y1 c \<and> x1 c \<le> page_width pg \<and> y1 c \<le> page_height pg) \<and>
     x_bounds medium \<subseteq> x_bounds thin \<and> y_bounds medium \<subseteq> y_bounds thin \<and>
     x_bounds thick \<subseteq> x_bounds thin \<and> y_bounds thick \<subseteq> y_bounds thin"
proof -
  from W obtain Wi where Wi: "page_width pg = real_of_int Wi" by (rule Ints_cases)
  from H obtain Hi where Hi: "page_height pg = real_of_int Hi" by (rule Ints_cases)
  from I obtain n where n: "grid_interval = real_of_int n" by (rule Ints_cases)
  from pos n have n1: "1 \<le> n" by simp
  have n5: "1 \<le> n * 5" and n10: "1 \<le> n * 10" using n1 by simp_all
  have i5: "grid_interval * 5 = real_of_int (n * 5)"
    and i10: "grid_interval * 10 = real_of_int (n * 10)" by (simp_all add: n)
  obtain thin where thin: "grid_pass (page_width pg) (page_height pg) grid_interval = Inr thin"
    unfolding n using grid_pass_steps [OF n1] by blast
  obtain medium where
    medium: "grid_pass (page_width pg) (page_height pg) (grid_interval * 5) = Inr medium"
    unfolding i5 using grid_pass_steps [OF n5] by blast
  obtain thick where
    thick: "grid_pass (page_width pg) (page_height pg) (grid_interval * 10) = Inr thick"
    unfolding i10 using grid_pass_steps [OF n10] by blast
  have page: "grid_to_pdf_page grid_interval grid_width pg =
       Inr (draw [Finish thin grid_width, Finish medium (grid_width * 5),
                  Finish thick (grid_width * 10)] pg)"
    by (simp add: grid_to_pdf_page_def thin medium thick)
  have positive: "\<forall>c\<in>set thin \<union> set medium \<union> set thick.
        x0 c < x1 c \<and> y0 c < y1 c \<and> x1 c \<le> page_width pg \<and> y1 c \<le> page_height pg"
    using grid_pass_drawn_positive [OF thin] grid_pass_drawn_positive [OF medium]
      grid_pass_drawn_positive [OF thick] by blast
  have "x_bounds medium \<subseteq> x_bounds thin" "y_bounds medium \<subseteq> y_bounds thin"
    using pass_x_bounds_aligned [of n 5 Wi Hi thin medium]
      pass_y_bounds_aligned [of n 5 Wi Hi thin medium] n1 thin medium
    unfolding Wi Hi n i5 [unfolded n] by simp_all
  moreover have "x_bounds thick \<subseteq> x_bounds thin" "y_bounds thick \<subseteq> y_bounds thin"
    using pass_x_bounds_aligned [of n 10 Wi Hi thin thick]
      pass_y_bounds_aligned [of n 10 Wi Hi thin thick] n1 thin thick
    unfolding Wi Hi n i10 [unfolded n] by simp_all
  ultimately show ?thesis
    using thin medium thick page positive by blast
qed

lemma grid_passes_aligned_example:
  "grid_to_pdf_page 10 0.1 small_page =
     Inr (draw [Finish [Rect 0 0 10 10, Rect 10 0 20 10] 0.1, Finish [Rect 0 0 20 10] 0.5,
                Finish [Rect 0 0 20 10] 1] small_page) \<and>
   x_bounds [Rect 0 0 20 10] \<subseteq> x_bounds [Rect 0 0 10 10, Rect 10 0 20 10] \<and>
   y_bounds [Rect 0 0 20 10] \<subseteq> y_bounds [Rect 0 0 10 10, Rect 10 0 20 10]"
proof -
  have W: "page_width small_page \<in> \<int>" and H: "page_height small_page \<in> \<int>"
    and I: "(10::real) \<in> \<int>" and pos: "(1::real) \<le> 10"
    by (simp_all add: small_page_def)
  have thin: "grid_pass (page_width small_page) (page_height small_page) 10 =
      Inr [Rect 0 0 10 10, Rect 10 0 20 10]"
    and medium: "grid_pass (page_width small_page) (page_height small_page) (10 * 5) =
      Inr [Rect 0 0 20 10]"
    and thick: "grid_pass (page_width small_page) (page_height small_page) (10 * 10) =
      Inr [Rect 0 0 20 10]"
    by (simp_all add: small_page_def grid_pass_def py_range_def py_int_def grid_cell_def
        drawable_def range_up.simps)
  from grid_passes_aligned [OF W H I pos, of "0.1"] obtain t m k where
    t: "grid_pass (page_width small_page) (page_height small_page) 10 = Inr t"
    and m: "grid_pass (page_width small_page) (page_height small_page) (10 * 5) = Inr m"
    and k: "grid_pass (page_width small_page) (page_height small_page) (10 * 10) = Inr k"
    and pg: "grid_to_pdf_page 10 0.1 small_page =
       Inr (draw [Finish t 0.1, Finish m (0.1 * 5), Finish k (0.1 * 10)] small_page)"
    and xb: "x_bounds m \<subseteq> x_bounds t" and yb: "y_bounds m \<subseteq> y_bounds t"
    by blast
  from t thin have "t = [Rect 0 0 10 10, Rect 10 0 20 10]" by simp
  moreover from m medium have "m = [Rect 0 0 20 10]" by simp
  moreover from k thick have "k = [Rect 0 0 20 10]" by simp
  ultimately show ?thesis
    using pg xb yb by simp
qed

lemma fractional_passes:
  "grid_pass 20.5 10 10 = Inr [Rect 0 0 10 10, Rect 10 0 20 10]"
  "grid_pass 20.5 10 50 = Inr [Rect 0 0 20.5 10]"
  "grid_pass 20.5 10 100 = Inr [Rect 0 0 20.5 10]"
  by (simp_all add: grid_pass_def py_range_def py_int_def grid_cell_def drawable_def
      range_up.simps)

lemma fractional_page_grid:
  "grid_to_pdf_page 10 0.1 fractional_page =
     Inr (draw [Finish [Rect 0 0 10 10, Rect 10 0 20 10] 0.1, Finish [Rect 0 0 20.5 10] 0.5,
                Finish [Rect 0 0 20.5 10] 1] fractional_page)"
proof -
  have W: "page_width fractional_page = 20.5" and H: "page_height fractional_page = 10"
    by (simp_all add: fractional_page_def)
  show ?thesis
    by (simp add: grid_to_pdf_page_def Let_def W H fractional_passes [simplified])
qed

text \<open>
  Claim C3, at failing inputs. The two iterations run over
  \<^verbatim>\<open>range(0, int(page size), int(interval))\<close> while the cells are built from the interval
  and the page size as they are. On a page of 20.5 by 10 with the base interval 10 the
  \<open>I\<close> pass draws two cells and stops at 20: the trailing cell from 20 to 20.5, whose
  clipped extent is positive, is not drawn, and the cell of the \<open>5I\<close> pass ends at 20.5,
  which is no boundary of the \<open>I\<close> pass. With the interval 3.5 on a page of 20 by 3 the
  iterations step by 3 and by 17 while the cells are 3.5 and 17.5 wide: the cells of the \<open>I\<close>
  pass overlap, and 17 is a boundary of the \<open>5I\<close> pass and of no cell of the \<open>I\<close> pass. With
  the interval 0.5 the step is 0 and the pass raises \<^verbatim>\<open>ValueError\<close>.
\<close>

theorem grid_truncates_page_and_interval:
  "grid_to_pdf_page 10 0.1 fractional_page =
     Inr (draw [Finish [Rect 0 0 10 10, Rect 10 0 20 10] 0.1, Finish [Rect 0 0 20.5 10] 0.5,
                Finish [Rect 0 0 20.5 10] 1] fractional_page) \<and>
   grid_pass 20.5 10 10 = Inr [Rect 0 0 10 10, Rect 10 0 20 10] \<and>
   grid_pass 20.5 10 (10 * 5) = Inr [Rect 0 0 20.5 10] \<and>
   grid_cell 20.5 10 10 0 20 = Rect 20 0 20.5 10 \<and>
   drawable (Rect 20 0 20.5 10) \<and>
   Rect 20 0 20.5 10 \<notin> set [Rect 0 0 10 10, Rect 10 0 20 10] \<and>
   \<not> x_bounds [Rect 0 0 20.5 10] \<subseteq> x_bounds [Rect 0 0 10 10, Rect 10 0 20 10] \<and>
   grid_pass 20 3 3.5 =
     Inr [Rect 0 0 3.5 3, Rect 3 0 6.5 3, Rect 6 0 9.5 3, Rect 9 0 12.5 3, Rect 12 0 15.5 3,
          Rect 15 0 18.5 3, Rect 18 0 20 3] \<and>
   grid_pass 20 3 (3.5 * 5) = Inr [Rect 0 0 17.5 3, Rect 17 0 20 3] \<and>
   17 \<in> x_bounds [Rect 0 0 17.5 3, Rect 17 0 20 3] \<and>
   17 \<notin> x_bounds [Rect 0 0 3.5 3, Rect 3 0 6.5 3, Rect 6 0 9.5 3, Rect 9 0 12.5 3,
                    Rect 12 0 15.5 3, Rect 15 0 18.5 3, Rect 18 0 20 3] \<and>
   grid_pass 200 300 0.5 = Inl ValueError"
  using fractional_page_grid
  by (simp add: grid_pass_def py_range_def py_int_def grid_cell_def drawable_def
      range_up.simps x_bounds_def)

end
